theory Spec2Isabelle
  imports Complex_Main
begin

section \<open>Numbers\<close>

text \<open>
  A JavaScript \<^verbatim>\<open>number\<close> is modelled as a real, and \<^verbatim>\<open>Date.now()\<close> as an integer
  count of milliseconds. The three conversions the services apply are written out:
  \<^verbatim>\<open>Math.round\<close> (ties go up), \<^verbatim>\<open>Number(x.toFixed(1))\<close> (one decimal, ties away
  from zero) and the store into an \<^verbatim>\<open>Int16Array\<close> (truncate towards zero, then wrap
  modulo \<open>2 ^ 16\<close>).
\<close>

definition Math_round :: "real \<Rightarrow> int" where
  "Math_round x = \<lfloor>x + 1 / 2\<rfloor>"

definition toFixed1 :: "real \<Rightarrow> real" where
  "toFixed1 x =
     (if x < 0 then - (of_int \<lfloor>(- x) * 10 + 1 / 2\<rfloor> / 10)
      else of_int \<lfloor>x * 10 + 1 / 2\<rfloor> / 10)"

definition ToInt16 :: "real \<Rightarrow> int" where
  "ToInt16 x =
     (let n = (if x < 0 then \<lceil>x\<rceil> else \<lfloor>x\<rfloor>);
          m = n mod 65536
      in if 32768 \<le> m then m - 65536 else m)"

section \<open>Strings\<close>

text \<open>
  A JavaScript string is a sequence of UTF-16 code units, modelled as a list of numbers;
  \<open>str\<close> turns a literal of the source into its code units. The characters that
  \<^verbatim>\<open>String.prototype.trim\<close> strips are the white space and line terminator code
  points of the language: tab, line feed, vertical tab, form feed, carriage return,
  space, no-break space, U+1680, U+2000 to U+200A, U+2028, U+2029, U+202F, U+205F, U+3000
  and U+FEFF.
\<close>

type_synonym jsString = "nat list"

definition str :: "string \<Rightarrow> jsString" where
  "str s = map of_char s"

definition isWhiteSpace :: "nat \<Rightarrow> bool" where
  "isWhiteSpace u =
     ((0x09 \<le> u \<and> u \<le> 0x0D) \<or> u = 0x20 \<or> u = 0xA0 \<or> u = 0x1680 \<or>
      (0x2000 \<le> u \<and> u \<le> 0x200A) \<or> u = 0x2028 \<or> u = 0x2029 \<or> u = 0x202F \<or>
      u = 0x205F \<or> u = 0x3000 \<or> u = 0xFEFF)"

definition trim :: "jsString \<Rightarrow> jsString" where
  "trim s = rev (dropWhile isWhiteSpace (rev (dropWhile isWhiteSpace s)))"

section \<open>The streaming client (GeminiLiveClient)\<close>

definition INPUT_SAMPLE_RATE :: real where
  "INPUT_SAMPLE_RATE = 16000"

definition OUTPUT_SAMPLE_RATE :: real where
  "OUTPUT_SAMPLE_RATE = 24000"

datatype readyState = WS_CONNECTING | WS_OPEN | WS_CLOSING | WS_CLOSED

text \<open>
  What \<^verbatim>\<open>session.sendRealtimeInput\<close> is handed: a media frame (the 16-bit samples whose
  bytes are base64-encoded under the mime type \<^verbatim>\<open>audio/pcm;rate=16000\<close>) or a text
  content block.
\<close>

datatype RealtimeInput = Media "int list" | Content jsString

text \<open>Calls on the session and the audio devices that leave the client.\<close>

datatype effect =
    SessionClose
  | ContextClose
  | SourceStop nat
  | ProcessorDisconnect
  | InputSourceDisconnect

datatype js_error = TypeError | RangeError | NotSupportedError | InvalidCharacterError

record AudioContext =
  sampleRate :: real

text \<open>A buffer source node handed to \<^verbatim>\<open>source.start(when)\<close>, with its buffer's duration.\<close>

record BufferSource =
  node :: nat
  startTime :: real
  bufDuration :: real

text \<open>
  The fields of the class, then the observable traces: \<open>wire\<close> lists the arguments of
  every \<^verbatim>\<open>session.sendRealtimeInput\<close> call, \<open>safeSendCalls\<close> counts the entries into
  \<^verbatim>\<open>safeSend\<close>, \<open>effects\<close> lists the close, stop and disconnect calls, \<open>started\<close>
  lists the \<^verbatim>\<open>source.start\<close> calls in order, and \<open>fresh\<close> numbers the source nodes.
\<close>

record GeminiLiveClient =
  session :: "nat option"
  audioContext :: "AudioContext option"
  inputProcessor :: "nat option"
  inputSource :: "nat option"
  lastSpeechTime :: int
  isSpeaking :: bool
  nextStartTime :: real
  audioQueue :: "BufferSource list"
  isSessionOpen :: bool
  ws :: "readyState option"
  wire :: "RealtimeInput list"
  safeSendCalls :: nat
  effects :: "effect list"
  started :: "BufferSource list"
  fresh :: nat

definition newClient :: GeminiLiveClient where
  "newClient =
     \<lparr> session = None, audioContext = None, inputProcessor = None, inputSource = None,
       lastSpeechTime = 0, isSpeaking = False, nextStartTime = 0, audioQueue = [],
       isSessionOpen = False, ws = None, wire = [], safeSendCalls = 0, effects = [],
       started = [], fresh = 0 \<rparr>"

subsection \<open>Sending\<close>

text \<open>
  \<^verbatim>\<open>safeSend\<close>: two early returns, then the send inside a \<^verbatim>\<open>try\<close> whose
  \<^verbatim>\<open>catch\<close> only logs.
\<close>

definition safeSend :: "GeminiLiveClient \<Rightarrow> RealtimeInput \<Rightarrow> GeminiLiveClient" where
  "safeSend c d =
     (let c1 = c\<lparr>safeSendCalls := Suc (safeSendCalls c)\<rparr>
      in if \<not> isSessionOpen c1 \<or> session c1 = None \<or> ws c1 = None then c1
         else if ws c1 \<noteq> Some WS_OPEN then c1
         else c1\<lparr>wire := wire c1 @ [d]\<rparr>)"

definition sendControlMessage :: "GeminiLiveClient \<Rightarrow> jsString \<Rightarrow> GeminiLiveClient" where
  "sendControlMessage c txt = safeSend c (Content (str ''[SYSTEM]: '' @ txt))"

subsection \<open>Microphone capture\<close>

definition stopAudioInput :: "GeminiLiveClient \<Rightarrow> GeminiLiveClient" where
  "stopAudioInput c =
     (let c1 = (case inputProcessor c of
                  None \<Rightarrow> c
                | Some p \<Rightarrow> c\<lparr>inputProcessor := None,
                               effects := effects c @ [ProcessorDisconnect]\<rparr>)
      in case inputSource c1 of
           None \<Rightarrow> c1
         | Some s \<Rightarrow> c1\<lparr>inputSource := None,
                         effects := effects c1 @ [InputSourceDisconnect]\<rparr>)"

text \<open>
  \<^verbatim>\<open>startAudioInput\<close> creates the stream source and the script processor, attaches the
  handler and connects the nodes; without an audio context it returns at once.
\<close>

definition startAudioInput :: "GeminiLiveClient \<Rightarrow> GeminiLiveClient" where
  "startAudioInput c =
     (case audioContext c of
        None \<Rightarrow> c
      | Some a \<Rightarrow> c\<lparr>inputSource := Some (fresh c),
                      inputProcessor := Some (Suc (fresh c)),
                      fresh := Suc (Suc (fresh c))\<rparr>)"

text \<open>
  \<^verbatim>\<open>downsample\<close>: \<open>compression = inputRate / outputRate\<close>, \<open>length = floor(n / compression)\<close>,
  sample \<open>i\<close> of the result is sample \<open>floor(i * compression)\<close> of the buffer, scaled by
  \<open>0x8000\<close> when negative and by \<open>0x7fff\<close> otherwise. A read past the buffer yields
  \<^verbatim>\<open>undefined\<close>, which is stored as 0. A compression that is not positive makes the
  length infinite or negative, and the \<^verbatim>\<open>Int16Array\<close> constructor throws.
\<close>

definition readSample :: "real list \<Rightarrow> int \<Rightarrow> real option" where
  "readSample buffer k =
     (if 0 \<le> k \<and> nat k < length buffer then Some (buffer ! nat k) else None)"

definition scaleSample :: "real option \<Rightarrow> int" where
  "scaleSample v =
     (case v of
        None \<Rightarrow> 0
      | Some s \<Rightarrow> ToInt16 (if s < 0 then s * 32768 else s * 32767))"

definition downsample :: "real list \<Rightarrow> real \<Rightarrow> real \<Rightarrow> js_error + int list" where
  "downsample buffer inputRate outputRate =
     (let compression = inputRate / outputRate
      in if compression \<le> 0 then Inl RangeError
         else Inr (map (\<lambda>i. scaleSample (readSample buffer \<lfloor>real i * compression\<rfloor>))
                       [0 ..< nat \<lfloor>real (length buffer) / compression\<rfloor>]))"

definition frame_rms :: "real list \<Rightarrow> real" where
  "frame_rms input = sqrt (sum_list (map (\<lambda>x. x * x) input) / real (length input))"

text \<open>
  The voice-activity update of the capture handler, which runs before the frame is
  built and therefore survives an exception thrown later in the \<^verbatim>\<open>try\<close> block.
\<close>

definition vadUpdate :: "GeminiLiveClient \<Rightarrow> real list \<Rightarrow> int \<Rightarrow> GeminiLiveClient" where
  "vadUpdate c input now =
     (let c1 = (if frame_rms input > 0.02
                then c\<lparr>isSpeaking := True, lastSpeechTime := now\<rparr> else c)
      in if now - lastSpeechTime c1 > 1200 then c1\<lparr>isSpeaking := False\<rparr> else c1)"

text \<open>
  The frame chosen for a tick: the downsampled capture while speaking, 320 zero samples
  otherwise. Reading \<^verbatim>\<open>this.audioContext!.sampleRate\<close> without a context throws.
\<close>

definition tickFrame :: "GeminiLiveClient \<Rightarrow> real list \<Rightarrow> js_error + int list" where
  "tickFrame c input =
     (if isSpeaking c then
        (case audioContext c of
           None \<Rightarrow> Inl TypeError
         | Some a \<Rightarrow> downsample input (sampleRate a) INPUT_SAMPLE_RATE)
      else Inr (replicate 320 0))"

text \<open>The body of the \<^verbatim>\<open>onaudioprocess\<close> handler, for a captured frame at time \<open>now\<close>.\<close>

definition onaudioprocess :: "GeminiLiveClient \<Rightarrow> real list \<Rightarrow> int \<Rightarrow> GeminiLiveClient" where
  "onaudioprocess c input now =
     (if \<not> isSessionOpen c \<or> session c = None then c
      else let c1 = vadUpdate c input now
           in case tickFrame c1 input of
                Inl err \<Rightarrow> c1
              | Inr pcm16 \<Rightarrow> safeSend c1 (Media pcm16))"

text \<open>
  A capture tick of the client: the device fires the handler of the processor node the
  client holds; once \<^verbatim>\<open>stopAudioInput\<close> has set the handler to \<^verbatim>\<open>null\<close> and dropped
  the node, nothing runs.
\<close>

definition captureTick :: "GeminiLiveClient \<Rightarrow> real list \<times> int \<Rightarrow> GeminiLiveClient" where
  "captureTick c ev =
     (case inputProcessor c of
        None \<Rightarrow> c
      | Some p \<Rightarrow> onaudioprocess c (fst ev) (snd ev))"

subsection \<open>Disconnecting\<close>

text \<open>
  \<^verbatim>\<open>disconnect\<close> is an \<^verbatim>\<open>async\<close> function with two conditional \<^verbatim>\<open>await\<close>s. It is
  modelled by its three atomic segments: up to the first await (\<open>disconnect_start\<close>),
  from there to the second (\<open>disconnect_tail\<close>), and the last assignment. A segment that
  meets no await runs on into the next one.
\<close>

datatype disconnect_pc = AwaitSessionClose | AwaitContextClose | Finished

definition stopAll :: "GeminiLiveClient \<Rightarrow> GeminiLiveClient" where
  "stopAll c = c\<lparr>effects := effects c @ map (\<lambda>s. SourceStop (node s)) (audioQueue c),
                 audioQueue := []\<rparr>"

definition disconnect_tail :: "GeminiLiveClient \<Rightarrow> GeminiLiveClient \<times> disconnect_pc" where
  "disconnect_tail c =
     (let c1 = stopAll (c\<lparr>session := None, ws := None\<rparr>)
      in case audioContext c1 of
           None \<Rightarrow> (c1, Finished)
         | Some a \<Rightarrow> (c1\<lparr>effects := effects c1 @ [ContextClose]\<rparr>, AwaitContextClose))"

definition disconnect_start :: "GeminiLiveClient \<Rightarrow> GeminiLiveClient \<times> disconnect_pc" where
  "disconnect_start c =
     (let c1 = (stopAudioInput c)\<lparr>isSessionOpen := False\<rparr>
      in case session c1 of
           None \<Rightarrow> disconnect_tail c1
         | Some s \<Rightarrow> (c1\<lparr>effects := effects c1 @ [SessionClose]\<rparr>, AwaitSessionClose))"

fun disconnect_resume :: "GeminiLiveClient \<times> disconnect_pc \<Rightarrow> GeminiLiveClient \<times> disconnect_pc" where
  "disconnect_resume (c, AwaitSessionClose) = disconnect_tail c"
| "disconnect_resume (c, AwaitContextClose) = (c\<lparr>audioContext := None\<rparr>, Finished)"
| "disconnect_resume (c, Finished) = (c, Finished)"

text \<open>The call run to completion, with nothing scheduled between its segments.\<close>

definition disconnect :: "GeminiLiveClient \<Rightarrow> GeminiLiveClient" where
  "disconnect c = fst (disconnect_resume (disconnect_resume (disconnect_start c)))"

text \<open>
  What can still happen once a \<^verbatim>\<open>disconnect\<close> call has returned from its first
  segment: the capture handler runs (as it would on a processor node that kept it), the
  device ticks the processor node the client holds, or the pending call resumes.
\<close>

datatype close_event =
    HandlerRuns "real list" int
  | CaptureTick "real list" int
  | CleanupResumes

fun after_close ::
  "GeminiLiveClient \<times> disconnect_pc \<Rightarrow> close_event \<Rightarrow> GeminiLiveClient \<times> disconnect_pc" where
  "after_close (c, pc) (HandlerRuns input now) = (onaudioprocess c input now, pc)"
| "after_close (c, pc) (CaptureTick input now) = (captureTick c (input, now), pc)"
| "after_close (c, pc) CleanupResumes = disconnect_resume (c, pc)"

definition transmitted :: "GeminiLiveClient \<Rightarrow> nat" where
  "transmitted c = length (wire c)"

text \<open>
  Two calls in a row, the second issued while the first still awaits: both run their
  first segment, then the pending calls resume in the order a schedule gives
  (\<open>True\<close> resumes the first call, \<open>False\<close> the second).
\<close>

fun resume2 ::
  "GeminiLiveClient \<times> disconnect_pc \<times> disconnect_pc \<Rightarrow> bool \<Rightarrow>
   GeminiLiveClient \<times> disconnect_pc \<times> disconnect_pc" where
  "resume2 (c, p, q) True = (fst (disconnect_resume (c, p)), snd (disconnect_resume (c, p)), q)"
| "resume2 (c, p, q) False = (fst (disconnect_resume (c, q)), p, snd (disconnect_resume (c, q)))"

definition disconnect_overlapped :: "GeminiLiveClient \<Rightarrow> bool list \<Rightarrow> GeminiLiveClient" where
  "disconnect_overlapped c sched =
     (let first = disconnect_start c;
          second = disconnect_start (fst first)
      in fst (foldl resume2 (fst second, snd first, snd second)
                (sched @ [True, True, False, False])))"

text \<open>The client with the log of device calls left out.\<close>

definition clientFields :: "GeminiLiveClient \<Rightarrow> GeminiLiveClient" where
  "clientFields c = c\<lparr>effects := []\<rparr>"

text \<open>How far a state has come on the way to the disconnected one.\<close>

definition phaseA :: "GeminiLiveClient \<Rightarrow> bool" where
  "phaseA c = (\<not> isSessionOpen c \<and> inputProcessor c = None \<and> inputSource c = None)"

definition phaseB :: "GeminiLiveClient \<Rightarrow> bool" where
  "phaseB c = (session c = None \<and> ws c = None \<and> audioQueue c = [])"

definition phaseC :: "GeminiLiveClient \<Rightarrow> bool" where
  "phaseC c = (audioContext c = None)"

fun pc_ok :: "GeminiLiveClient \<Rightarrow> disconnect_pc \<Rightarrow> bool" where
  "pc_ok c AwaitSessionClose = phaseA c"
| "pc_ok c AwaitContextClose = (phaseA c \<and> phaseB c)"
| "pc_ok c Finished = (phaseA c \<and> phaseB c \<and> phaseC c)"

definition closedView :: "GeminiLiveClient \<Rightarrow> GeminiLiveClient" where
  "closedView c =
     c\<lparr>session := None, audioContext := None, inputProcessor := None, inputSource := None,
       audioQueue := [], isSessionOpen := False, ws := None, effects := []\<rparr>"

text \<open>
  The calls that release what a client holds, in the order \<^verbatim>\<open>disconnect\<close> makes them;
  and, for a run that began in \<open>c0\<close>, that nothing logged is lost, that the playback
  queue and the audio context are either untouched or have had their calls made, and
  that a call awaiting the context's close has logged it.
\<close>

definition releaseCalls :: "GeminiLiveClient \<Rightarrow> effect list" where
  "releaseCalls c =
     (case inputProcessor c of None \<Rightarrow> [] | Some p \<Rightarrow> [ProcessorDisconnect]) @
     (case inputSource c of None \<Rightarrow> [] | Some s \<Rightarrow> [InputSourceDisconnect]) @
     (case session c of None \<Rightarrow> [] | Some s \<Rightarrow> [SessionClose]) @
     map (\<lambda>s. SourceStop (node s)) (audioQueue c) @
     (case audioContext c of None \<Rightarrow> [] | Some a \<Rightarrow> [ContextClose])"

definition keeps :: "GeminiLiveClient \<Rightarrow> GeminiLiveClient \<Rightarrow> bool" where
  "keeps c0 c =
     (set (effects c0) \<subseteq> set (effects c) \<and>
      (audioQueue c = audioQueue c0 \<or>
       set (map (\<lambda>s. SourceStop (node s)) (audioQueue c0)) \<subseteq> set (effects c)) \<and>
      (audioContext c = audioContext c0 \<or> ContextClose \<in> set (effects c)))"

definition closing :: "GeminiLiveClient \<Rightarrow> disconnect_pc \<Rightarrow> bool" where
  "closing c pc = (pc \<noteq> AwaitContextClose \<or> ContextClose \<in> set (effects c))"

subsection \<open>Playback of inbound audio\<close>

text \<open>
  An inbound fragment is a base64 string: \<^verbatim>\<open>atob\<close> throws on a malformed one, an
  odd number of bytes cannot back an \<^verbatim>\<open>Int16Array\<close>, and \<^verbatim>\<open>createBuffer\<close> refuses
  a buffer of zero frames. All three land in the \<^verbatim>\<open>catch\<close> of \<^verbatim>\<open>queueAudio\<close>.
\<close>

datatype base64 = Malformed | Bytes "nat list"

fun int16s :: "nat list \<Rightarrow> int list" where
  "int16s (lo # hi # rest) =
     (let v = int lo + 256 * int hi in if 32768 \<le> v then v - 65536 else v) # int16s rest"
| "int16s rest = []"

definition fromBase64 :: "base64 \<Rightarrow> js_error + int list" where
  "fromBase64 d =
     (case d of
        Malformed \<Rightarrow> Inl InvalidCharacterError
      | Bytes bs \<Rightarrow> if odd (length bs) then Inl RangeError else Inr (int16s bs))"

record AudioBuffer =
  channel :: "real list"
  abDuration :: real

definition createAudioBuffer :: "int list \<Rightarrow> js_error + AudioBuffer" where
  "createAudioBuffer pcm =
     (if pcm = [] then Inl NotSupportedError
      else Inr \<lparr> channel = map (\<lambda>s. real_of_int s / 32768) pcm,
                 abDuration = real (length pcm) / OUTPUT_SAMPLE_RATE \<rparr>)"

text \<open>\<^verbatim>\<open>queueAudio\<close>, for a fragment that arrives when the playback clock reads \<open>t\<close>.\<close>

definition queueAudio :: "GeminiLiveClient \<Rightarrow> base64 \<Rightarrow> real \<Rightarrow> GeminiLiveClient" where
  "queueAudio c d t =
     (if audioContext c = None \<or> \<not> isSessionOpen c then c
      else case fromBase64 d of
             Inl err \<Rightarrow> c
           | Inr pcm \<Rightarrow>
               (case createAudioBuffer pcm of
                  Inl err \<Rightarrow> c
                | Inr buf \<Rightarrow>
                    (let start = (if nextStartTime c < t then t else nextStartTime c);
                         src = \<lparr> node = fresh c, startTime = start,
                                 bufDuration = abDuration buf \<rparr>
                     in c\<lparr>nextStartTime := start + abDuration buf,
                          audioQueue := audioQueue c @ [src],
                          started := started c @ [src],
                          fresh := Suc (fresh c)\<rparr>)))"

text \<open>The \<^verbatim>\<open>onended\<close> handler of source node \<open>n\<close>.\<close>

definition sourceEnded :: "GeminiLiveClient \<Rightarrow> nat \<Rightarrow> GeminiLiveClient" where
  "sourceEnded c n = c\<lparr>audioQueue := filter (\<lambda>s. node s \<noteq> n) (audioQueue c)\<rparr>"

text \<open>
  Feeding a sequence of fragments, each with the clock reading at its arrival, and the
  two properties of the log of \<^verbatim>\<open>source.start\<close> calls: no buffer starts before its
  predecessor has ended, and \<open>nextStartTime\<close> is the end of the last one.
\<close>

definition feed :: "GeminiLiveClient \<Rightarrow> (base64 \<times> real) list \<Rightarrow> GeminiLiveClient" where
  "feed c evs = foldl (\<lambda>s ev. queueAudio s (fst ev) (snd ev)) c evs"

fun gapless :: "BufferSource list \<Rightarrow> bool" where
  "gapless (a # b # rest) = (startTime a + bufDuration a \<le> startTime b \<and> gapless (b # rest))"
| "gapless rest = True"

definition endTime :: "BufferSource \<Rightarrow> real" where
  "endTime s = startTime s + bufDuration s"

definition tracksEnd :: "GeminiLiveClient \<Rightarrow> bool" where
  "tracksEnd c = (case rev (started c) of [] \<Rightarrow> True | s # earlier \<Rightarrow> nextStartTime c = endTime s)"

subsection \<open>Connecting\<close>

text \<open>
  \<^verbatim>\<open>connect\<close> calls \<^verbatim>\<open>disconnect\<close> without awaiting it, creates the output context at
  24 kHz and awaits the connection; on success it stores the session and what the session
  holds under \<^verbatim>\<open>websocket\<close>.
\<close>

definition connect_begin :: "GeminiLiveClient \<Rightarrow> GeminiLiveClient \<times> disconnect_pc" where
  "connect_begin c =
     (let (c1, pc) = disconnect_start c
      in (c1\<lparr>audioContext := Some \<lparr> sampleRate = OUTPUT_SAMPLE_RATE \<rparr>\<rparr>, pc))"

text \<open>
  What \<^verbatim>\<open>liveConn.websocket\<close> yields is left to the session object that the library
  returns: \<open>None\<close> when it has no such property (the value is then \<^verbatim>\<open>undefined\<close>),
  else the socket with its ready state.
\<close>

definition connect_resolved ::
  "GeminiLiveClient \<Rightarrow> nat \<Rightarrow> readyState option \<Rightarrow> GeminiLiveClient" where
  "connect_resolved c sid websocket = c\<lparr>session := Some sid, ws := websocket\<rparr>"

text \<open>
  A client after a successful \<^verbatim>\<open>connect\<close>, for a session object that carries an open
  socket under that name, once the socket has reported open.
\<close>

definition connectedClient :: GeminiLiveClient where
  "connectedClient =
     (connect_resolved (fst (connect_begin newClient)) 1 (Some WS_OPEN))\<lparr>isSessionOpen := True\<rparr>"

section \<open>The analysis service (AnalysisService)\<close>

record AnalysisMetrics =
  speechRate :: real
  pauseRatio :: real
  volumeStability :: real
  eyeContact :: real
  confidence :: real
  clarity :: real
  audioLevel :: "real option"

record AnalysisService =
  svcAudioContext :: bool
  analyser :: bool
  speechHistory :: "(int \<times> bool) list"
  rmsValues :: "real list"
  lastSpeechTimestamp :: int
  gazeHistory :: "bool list"
  isRunning :: bool
  currentMetrics :: AnalysisMetrics

definition newService :: AnalysisService where
  "newService =
     \<lparr> svcAudioContext = False, analyser = False, speechHistory = [], rmsValues = [],
       lastSpeechTimestamp = 0, gazeHistory = [], isRunning = False,
       currentMetrics =
         \<lparr> speechRate = 0, pauseRatio = 0, volumeStability = 10, eyeContact = 100,
           confidence = 100, clarity = 8, audioLevel = None \<rparr> \<rparr>"

text \<open>
  \<open>analyser\<close> stands for the analyser node and its data array, which \<^verbatim>\<open>initAudio\<close>
  creates together and \<^verbatim>\<open>stop\<close> leaves in place. The passes of the audio loop that
  \<^verbatim>\<open>initAudio\<close> sets going are the ticks of \<open>processAudioLoop\<close> below.
\<close>

definition initAudio :: "AnalysisService \<Rightarrow> AnalysisService" where
  "initAudio s =
     (if svcAudioContext s then s
      else s\<lparr>svcAudioContext := True, analyser := True, isRunning := True\<rparr>)"

definition stop :: "AnalysisService \<Rightarrow> AnalysisService" where
  "stop s = s\<lparr>isRunning := False, svcAudioContext := False, rmsValues := [],
              gazeHistory := [], speechHistory := [], lastSpeechTimestamp := 0\<rparr>"

subsection \<open>Audio metrics\<close>

definition byte_rms :: "nat list \<Rightarrow> real" where
  "byte_rms dataArray =
     sqrt (sum_list (map (\<lambda>b. real b * real b) dataArray) / real (length dataArray))"

definition SILENCE_THRESHOLD :: real where
  "SILENCE_THRESHOLD = 15"

definition WINDOW_MS :: int where
  "WINDOW_MS = 500"

definition SILENCE_TIMEOUT :: int where
  "SILENCE_TIMEOUT = 500"

definition volume_stability :: "real list \<Rightarrow> real" where
  "volume_stability rs =
     (if length rs > 1 then
        (let mean = sum_list rs / real (length rs);
             variance = sum_list (map (\<lambda>b. (b - mean) ^ 2) rs) / real (length rs)
         in max 0 (10 - sqrt variance / 5))
      else 10)"

text \<open>
  \<^verbatim>\<open>calculateAudioMetrics\<close>; \<open>now\<close> is what its own \<^verbatim>\<open>Date.now()\<close> returns.
\<close>

definition calculateAudioMetrics :: "AnalysisService \<Rightarrow> int \<Rightarrow> AnalysisService" where
  "calculateAudioMetrics s now =
     (let m1 = (currentMetrics s)\<lparr>volumeStability := toFixed1 (volume_stability (rmsValues s))\<rparr>;
          timeSinceSpeech = now - lastSpeechTimestamp s;
          isActuallySpeaking = (timeSinceSpeech < SILENCE_TIMEOUT)
      in if \<not> isActuallySpeaking then
           s\<lparr>currentMetrics := m1\<lparr>speechRate := 0, pauseRatio := 100\<rparr>\<rparr>
         else
           (let speechFrames = real (length (filter snd (speechHistory s)));
                totalFrames = real (length (speechHistory s));
                windowSeconds = (if totalFrames > 0 then totalFrames / 60 else 0.5);
                activeSeconds = speechFrames / 60;
                estimatedWords = activeSeconds * 2.5;
                wpm = (if windowSeconds > 0 then estimatedWords * 60 / windowSeconds else 0)
            in s\<lparr>currentMetrics := m1\<lparr>
                   speechRate := of_int (Math_round wpm),
                   pauseRatio := (if totalFrames > 0
                                  then toFixed1 ((1 - speechFrames / totalFrames) * 100)
                                  else 0)\<rparr>\<rparr>))"

definition audio_level :: "real \<Rightarrow> real" where
  "audio_level rms =
     max 0 (min 100 (of_int (Math_round (log 10 (rms + 1) / log 10 200 * 100))))"

text \<open>
  One pass of \<^verbatim>\<open>processAudioLoop\<close> over the analyser's byte data; \<open>now\<close> is the loop's
  \<^verbatim>\<open>Date.now()\<close> and \<open>now'\<close> the one read inside \<^verbatim>\<open>calculateAudioMetrics\<close>.
\<close>

definition processAudioLoop :: "AnalysisService \<Rightarrow> nat list \<Rightarrow> int \<Rightarrow> int \<Rightarrow> AnalysisService" where
  "processAudioLoop s dataArray now now' =
     (if \<not> isRunning s \<or> \<not> analyser s then s
      else
        (let rms = byte_rms dataArray;
             s1 = s\<lparr>currentMetrics := (currentMetrics s)\<lparr>audioLevel := Some (audio_level rms)\<rparr>\<rparr>;
             s2 = (if rms > 5 then
                     (let pushed = rmsValues s1 @ [rms]
                      in s1\<lparr>rmsValues := (if length pushed > 5 then tl pushed else pushed)\<rparr>)
                   else s1);
             isSpeech = (rms > SILENCE_THRESHOLD);
             s3 = (if isSpeech then s2\<lparr>lastSpeechTimestamp := now\<rparr> else s2);
             s4 = s3\<lparr>speechHistory :=
                       dropWhile (\<lambda>e. now - fst e > WINDOW_MS) (speechHistory s3 @ [(now, isSpeech)])\<rparr>
         in calculateAudioMetrics s4 now'))"

subsection \<open>Gaze and eye contact\<close>

record landmark =
  lm_x :: real
  lm_y :: real
  lm_z :: real

text \<open>\<^verbatim>\<open>landmarks[i]\<close>; reading a coordinate of a missing entry throws.\<close>

definition landmarkAt :: "landmark list \<Rightarrow> nat \<Rightarrow> js_error + landmark" where
  "landmarkAt landmarks i = (if i < length landmarks then Inr (landmarks ! i) else Inl TypeError)"

definition getRatio :: "landmark \<Rightarrow> landmark \<Rightarrow> landmark \<Rightarrow> real" where
  "getRatio inner outer iris =
     (let eyeWidth = \<bar>lm_x outer - lm_x inner\<bar>;
          irisPos = \<bar>lm_x iris - lm_x inner\<bar>
      in if eyeWidth > 0 then irisPos / eyeWidth else 0.5)"

definition eyeRatio :: "landmark list \<Rightarrow> nat \<Rightarrow> nat \<Rightarrow> nat \<Rightarrow> js_error + real" where
  "eyeRatio landmarks i j k =
     (case landmarkAt landmarks j of
        Inl err \<Rightarrow> Inl err
      | Inr outer \<Rightarrow>
          (case landmarkAt landmarks i of
             Inl err \<Rightarrow> Inl err
           | Inr inner \<Rightarrow>
               (case landmarkAt landmarks k of
                  Inl err \<Rightarrow> Inl err
                | Inr iris \<Rightarrow> Inr (getRatio inner outer iris))))"

definition checkGaze :: "landmark list \<Rightarrow> js_error + bool" where
  "checkGaze landmarks =
     (case landmarkAt landmarks 1 of
        Inl err \<Rightarrow> Inl err
      | Inr nose \<Rightarrow>
          if lm_x nose < 0.40 \<or> lm_x nose > 0.60 then Inr False
          else
            (case eyeRatio landmarks 33 133 468 of
               Inl err \<Rightarrow> Inl err
             | Inr rightEyeRatio \<Rightarrow>
                 (case eyeRatio landmarks 362 263 473 of
                    Inl err \<Rightarrow> Inl err
                  | Inr leftEyeRatio \<Rightarrow>
                      Inr ((rightEyeRatio > 0.40 \<and> rightEyeRatio < 0.60) \<and>
                           (leftEyeRatio > 0.40 \<and> leftEyeRatio < 0.60)))))"

definition THRESHOLD :: real where
  "THRESHOLD = 0.75"

definition pushGaze :: "bool list \<Rightarrow> bool \<Rightarrow> bool list" where
  "pushGaze h isLooking =
     (let pushed = h @ [isLooking] in if length pushed > 20 then tl pushed else pushed)"

definition eyeContactScore :: "bool list \<Rightarrow> real" where
  "eyeContactScore h =
     (let lookingCount = real (length (filter id h));
          total = real (length h);
          score = lookingCount / total * 100
      in if lookingCount / total < THRESHOLD then score * (lookingCount / total) else score)"

definition adaptiveConfidence :: "AnalysisMetrics \<Rightarrow> real" where
  "adaptiveConfidence m =
     (if speechRate m > 0 then
        (let pace1 = (if speechRate m > 180 then 70 else 100);
             paceScore = (if speechRate m < 80 then 60 else pace1);
             stabilityScore = volumeStability m * 10
         in of_int (Math_round (eyeContact m * 0.4 + stabilityScore * 0.3 + paceScore * 0.3)))
      else eyeContact m)"

text \<open>
  \<^verbatim>\<open>onFaceResults\<close>: \<open>None\<close> stands for a result without a face. A throw of
  \<^verbatim>\<open>checkGaze\<close> leaves before anything is written.
\<close>

definition onFaceResults :: "AnalysisService \<Rightarrow> landmark list option \<Rightarrow> js_error + AnalysisService" where
  "onFaceResults s res =
     (case res of
        None \<Rightarrow> Inr (s\<lparr>currentMetrics := (currentMetrics s)\<lparr>eyeContact := 0, confidence := 0\<rparr>\<rparr>)
      | Some landmarks \<Rightarrow>
          (case checkGaze landmarks of
             Inl err \<Rightarrow> Inl err
           | Inr isLooking \<Rightarrow>
               (let h = pushGaze (gazeHistory s) isLooking;
                    m1 = (currentMetrics s)\<lparr>eyeContact := of_int (Math_round (eyeContactScore h))\<rparr>
                in Inr (s\<lparr>gazeHistory := h,
                           currentMetrics := m1\<lparr>confidence := adaptiveConfidence m1\<rparr>\<rparr>))))"

section \<open>The orchestrator (InterviewGraph)\<close>

datatype Difficulty = EASY | STANDARD | HARD

record InterviewConfig =
  industry :: jsString
  roleTitle :: "jsString option"
  duration :: real
  difficulty :: Difficulty
  jdText :: jsString
  resumeText :: jsString

datatype LiveConnectionState = DISCONNECTED | CONNECTING | CONNECTED | ERROR

datatype speaker = AI | User

record Message =
  msgRole :: speaker
  msgText :: jsString
  msgTimestamp :: int

text \<open>
  The metrics object an assessment holds is a reference: either the service's live
  \<^verbatim>\<open>currentMetrics\<close> object, which every tick overwrites in place, or an object of its
  own on the heap of snapshots. The spread \<^verbatim>\<open>{ ...analysisService.currentMetrics }\<close>
  allocates the latter.
\<close>

datatype metrics_ref = LiveMetrics | Snapshot nat

record QuestionAnalysis =
  questionId :: nat
  questionText :: jsString
  userAnswer :: jsString
  metrics :: metrics_ref
  contentScore :: real
  deliveryScore :: real
  feedback :: jsString
  strengths :: "jsString list"
  weaknesses :: "jsString list"

record InterviewState =
  connectionState :: LiveConnectionState
  config :: InterviewConfig
  transcript :: "Message list"
  analyses :: "QuestionAnalysis list"
  currentQuestionIndex :: nat
  totalQuestions :: nat
  currentQuestionText :: jsString
  realtimeInputText :: jsString
  realtimeOutputText :: jsString

text \<open>
  The arguments object of a \<^verbatim>\<open>save_assessment\<close> call; every field may be missing.
\<close>

record AssessmentArgs =
  full_question_text :: "jsString option"
  question_topic :: "jsString option"
  user_answer_summary :: "jsString option"
  content_score :: "real option"
  delivery_score :: "real option"
  feedback_arg :: "jsString option"
  strengths_arg :: "jsString list option"
  areas_for_improvement :: "jsString list option"

text \<open>
  The orchestrator with what it reaches: its client, the analysis service singleton,
  the heap of metrics snapshots, the speech recogniser (\<open>None\<close> when the browser has
  none, else whether it is running), the pending \<^verbatim>\<open>setTimeout\<close> callbacks by delay,
  the disconnect calls still awaiting, and the interview state at every call of the
  completion callback.
\<close>

record InterviewGraph =
  state :: InterviewState
  liveClient :: GeminiLiveClient
  aiTextBuffer :: jsString
  userTranscriptBuffer :: jsString
  onEnd :: bool
  analysisService :: AnalysisService
  snapshots :: "AnalysisMetrics list"
  recognition :: "bool option"
  timers :: "nat list"
  pendingDisconnects :: "disconnect_pc list"
  completions :: "InterviewState list"

definition totalQs :: "real \<Rightarrow> nat" where
  "totalQs d = (if d \<ge> 30 then 7 else if d \<ge> 20 then 5 else 3)"

definition newInterviewGraph ::
  "InterviewConfig \<Rightarrow> bool \<Rightarrow> AnalysisService \<Rightarrow> bool \<Rightarrow> InterviewGraph" where
  "newInterviewGraph cfg onEndGiven svc speechApi =
     \<lparr> state =
         \<lparr> connectionState = DISCONNECTED, config = cfg, transcript = [], analyses = [],
           currentQuestionIndex = 0, totalQuestions = totalQs (duration cfg),
           currentQuestionText = str ''Waiting for interviewer...'',
           realtimeInputText = [], realtimeOutputText = [] \<rparr>,
       liveClient = newClient, aiTextBuffer = [], userTranscriptBuffer = [],
       onEnd = onEndGiven, analysisService = svc, snapshots = [],
       recognition = (if speechApi then Some False else None),
       timers = [], pendingDisconnects = [], completions = [] \<rparr>"

definition readMetrics :: "InterviewGraph \<Rightarrow> metrics_ref \<Rightarrow> AnalysisMetrics option" where
  "readMetrics g r =
     (case r of
        LiveMetrics \<Rightarrow> Some (currentMetrics (analysisService g))
      | Snapshot a \<Rightarrow> if a < length (snapshots g) then Some (snapshots g ! a) else None)"

subsection \<open>Text helpers\<close>

text \<open>\<^verbatim>\<open>a || b\<close> on strings: a missing or empty \<open>a\<close> gives way to \<open>b\<close>.\<close>

definition orElse :: "jsString option \<Rightarrow> jsString \<Rightarrow> jsString" where
  "orElse a b = (case a of None \<Rightarrow> b | Some s \<Rightarrow> if s = [] then b else s)"

text \<open>\<^verbatim>\<open>Number(v) || 5\<close>: a missing value is \<^verbatim>\<open>NaN\<close>, and \<^verbatim>\<open>NaN\<close> and 0 give way to 5.\<close>

definition scoreOr5 :: "real option \<Rightarrow> real" where
  "scoreOr5 v = (case v of None \<Rightarrow> 5 | Some n \<Rightarrow> if n = 0 then 5 else n)"

definition listOrEmpty :: "jsString list option \<Rightarrow> jsString list" where
  "listOrEmpty v = (case v of None \<Rightarrow> [] | Some xs \<Rightarrow> xs)"

subsection \<open>Handlers\<close>

definition realQuestion :: "AssessmentArgs \<Rightarrow> jsString \<Rightarrow> jsString" where
  "realQuestion args shown =
     orElse (full_question_text args)
       (orElse (Some shown) (orElse (question_topic args) (str ''Interview Question'')))"

definition rawUserAnswer :: "AssessmentArgs \<Rightarrow> jsString \<Rightarrow> jsString" where
  "rawUserAnswer args buffer =
     (if length (trim buffer) > 0 then trim buffer
      else orElse (user_answer_summary args) (str ''(No audio response detected)''))"

text \<open>
  \<^verbatim>\<open>handleAssessment\<close>, with the two \<^verbatim>\<open>Date.now()\<close> readings of the transcript
  entries.
\<close>

definition handleAssessment :: "InterviewGraph \<Rightarrow> AssessmentArgs \<Rightarrow> int \<Rightarrow> int \<Rightarrow> InterviewGraph" where
  "handleAssessment g args t1 t2 =
     (let copy = Snapshot (length (snapshots g));
          g1 = g\<lparr>snapshots := snapshots g @ [currentMetrics (analysisService g)]\<rparr>;
          question = realQuestion args (currentQuestionText (state g1));
          answer = rawUserAnswer args (userTranscriptBuffer g1);
          newAnalysis =
            \<lparr> questionId = length (analyses (state g1)) + 1,
              questionText = question,
              userAnswer = answer,
              metrics = copy,
              contentScore = scoreOr5 (content_score args),
              deliveryScore = scoreOr5 (delivery_score args),
              feedback = orElse (feedback_arg args) (str ''No feedback provided''),
              strengths = listOrEmpty (strengths_arg args),
              weaknesses = listOrEmpty (areas_for_improvement args) \<rparr>
      in g1\<lparr>state := (state g1)\<lparr>
              analyses := analyses (state g1) @ [newAnalysis],
              transcript := transcript (state g1) @
                [\<lparr> msgRole = AI, msgText = question, msgTimestamp = t1 \<rparr>,
                 \<lparr> msgRole = User, msgText = answer, msgTimestamp = t2 \<rparr>]\<rparr>\<rparr>)"

definition WRAP_UP :: jsString where
  "WRAP_UP = str ''We have reached the target number of questions. Please give a brief closing statement and say goodbye.''"

text \<open>
  A function call of a tool-call message: its name, its arguments (\<open>None\<close> when the call
  carries none, which makes \<^verbatim>\<open>handleAssessment\<close> throw on its first field read) and
  the clock readings. The rejected promise is caught by the caller and only logged.
\<close>

record FunctionCall =
  fcName :: jsString
  fcArgs :: "AssessmentArgs option"
  fcStamps :: "int \<times> int"

definition onToolCall :: "InterviewGraph \<Rightarrow> FunctionCall \<Rightarrow> InterviewGraph" where
  "onToolCall g call =
     (if fcName call = str ''save_assessment'' then
        (case fcArgs call of
           None \<Rightarrow> g
         | Some args \<Rightarrow>
             (let g1 = handleAssessment g args (fst (fcStamps call)) (snd (fcStamps call));
                  g2 = g1\<lparr>aiTextBuffer := [], userTranscriptBuffer := []\<rparr>;
                  g3 = g2\<lparr>state := (state g2)\<lparr>
                          realtimeInputText := [],
                          currentQuestionIndex := currentQuestionIndex (state g2) + 1\<rparr>\<rparr>
              in if currentQuestionIndex (state g3) \<ge> totalQuestions (state g3) then
                   g3\<lparr>liveClient := sendControlMessage (liveClient g3) WRAP_UP,
                       timers := timers g3 @ [6000]\<rparr>
                 else g3))
      else g)"

definition onTranscript :: "InterviewGraph \<Rightarrow> jsString \<Rightarrow> bool \<Rightarrow> InterviewGraph" where
  "onTranscript g txt isUser =
     (if \<not> isUser then
        (let g1 = g\<lparr>aiTextBuffer := aiTextBuffer g @ txt\<rparr>
         in g1\<lparr>state := (state g1)\<lparr>currentQuestionText := aiTextBuffer g1\<rparr>\<rparr>)
      else g)"

text \<open>
  The recogniser's \<^verbatim>\<open>onresult\<close>, over the results from \<^verbatim>\<open>resultIndex\<close> on, each with
  its \<^verbatim>\<open>isFinal\<close> flag.
\<close>

definition onresult :: "InterviewGraph \<Rightarrow> (bool \<times> jsString) list \<Rightarrow> InterviewGraph" where
  "onresult g results =
     (let finals = concat (map (\<lambda>r. snd r @ str '' '') (filter fst results));
          interimTranscript = concat (map snd (filter (\<lambda>r. \<not> fst r) results));
          g1 = g\<lparr>userTranscriptBuffer := userTranscriptBuffer g @ finals\<rparr>
      in if interimTranscript \<noteq> [] then
           g1\<lparr>state := (state g1)\<lparr>realtimeInputText := interimTranscript\<rparr>\<rparr>
         else g1)"

subsection \<open>Inbound messages\<close>

record Part =
  inlineData :: "base64 option"
  partText :: "jsString option"
  clock :: real

record LiveServerMessage =
  parts :: "Part list option"
  toolCall :: "FunctionCall list option"

definition handlePart :: "InterviewGraph \<Rightarrow> Part \<Rightarrow> InterviewGraph" where
  "handlePart g p =
     (let g1 = (case inlineData p of
                  None \<Rightarrow> g
                | Some d \<Rightarrow> g\<lparr>liveClient := queueAudio (liveClient g) d (clock p)\<rparr>)
      in case partText p of
           None \<Rightarrow> g1
         | Some txt \<Rightarrow> if txt = [] then g1 else onTranscript g1 txt False)"

definition safeHandleMessage :: "InterviewGraph \<Rightarrow> LiveServerMessage \<Rightarrow> InterviewGraph" where
  "safeHandleMessage g message =
     (if \<not> isSessionOpen (liveClient g) then g
      else
        (let g1 = (case parts message of None \<Rightarrow> g | Some ps \<Rightarrow> foldl handlePart g ps)
         in case toolCall message of
              None \<Rightarrow> g1
            | Some calls \<Rightarrow> foldl onToolCall g1 calls))"

subsection \<open>Session life cycle\<close>

definition socketOpened :: "InterviewGraph \<Rightarrow> InterviewGraph" where
  "socketOpened g =
     g\<lparr>liveClient := (liveClient g)\<lparr>isSessionOpen := True\<rparr>,
       state := (state g)\<lparr>connectionState := CONNECTED\<rparr>\<rparr>"

definition socketClosed :: "InterviewGraph \<Rightarrow> InterviewGraph" where
  "socketClosed g =
     g\<lparr>liveClient := (liveClient g)\<lparr>isSessionOpen := False\<rparr>,
       state := (state g)\<lparr>connectionState := DISCONNECTED\<rparr>\<rparr>"

definition socketError :: "InterviewGraph \<Rightarrow> InterviewGraph" where
  "socketError g =
     g\<lparr>liveClient := (liveClient g)\<lparr>isSessionOpen := False\<rparr>,
       state := (state g)\<lparr>connectionState := ERROR\<rparr>\<rparr>"

definition stopSession :: "InterviewGraph \<Rightarrow> InterviewGraph" where
  "stopSession g =
     (let (c, pc) = disconnect_start (liveClient g)
      in g\<lparr>liveClient := c,
           pendingDisconnects := pendingDisconnects g @ [pc],
           analysisService := stop (analysisService g),
           recognition := map_option (\<lambda>r. False) (recognition g),
           state := (state g)\<lparr>connectionState := DISCONNECTED\<rparr>\<rparr>)"

text \<open>The oldest pending \<^verbatim>\<open>setTimeout\<close> callback of the wrap-up runs.\<close>

definition timerFires :: "InterviewGraph \<Rightarrow> InterviewGraph" where
  "timerFires g =
     (case timers g of
        [] \<Rightarrow> g
      | d # rest \<Rightarrow>
          (let g1 = stopSession (g\<lparr>timers := rest\<rparr>)
           in if onEnd g1 then g1\<lparr>completions := completions g1 @ [state g1]\<rparr> else g1))"

text \<open>
  \<^verbatim>\<open>startSession\<close> along its successful path: the state turns to connecting, the
  analysis service and the recogniser start, the client connects (the socket opens
  before the connection promise resolves with session \<open>sid\<close>, whose \<^verbatim>\<open>websocket\<close>
  property reads \<open>websocket\<close>), and capture begins.
\<close>

definition startSession ::
  "InterviewGraph \<Rightarrow> nat \<Rightarrow> readyState option \<Rightarrow> InterviewGraph" where
  "startSession g sid websocket =
     (let g1 = g\<lparr>state := (state g)\<lparr>connectionState := CONNECTING\<rparr>\<rparr>;
          g2 = g1\<lparr>analysisService := initAudio (analysisService g1)\<rparr>;
          g3 = g2\<lparr>recognition := map_option (\<lambda>r. True) (recognition g2)\<rparr>;
          begun = connect_begin (liveClient g3);
          g4 = g3\<lparr>liveClient := fst begun,
                  pendingDisconnects := pendingDisconnects g3 @ [snd begun]\<rparr>;
          g5 = socketOpened g4;
          g6 = g5\<lparr>liveClient := connect_resolved (liveClient g5) sid websocket\<rparr>
      in g6\<lparr>liveClient := startAudioInput (liveClient g6)\<rparr>)"

text \<open>A message that carries one \<^verbatim>\<open>save_assessment\<close> call and nothing else.\<close>

definition saveAssessment :: "AssessmentArgs \<Rightarrow> int \<times> int \<Rightarrow> LiveServerMessage" where
  "saveAssessment args stamps =
     \<lparr> parts = None,
       toolCall = Some [\<lparr> fcName = str ''save_assessment'', fcArgs = Some args,
                          fcStamps = stamps \<rparr>] \<rparr>"

section \<open>The claims' own formulas and sample inputs\<close>

text \<open>
  The eye-contact value as the specification words it: the share of looking frames
  times 100, multiplied once more by that share when it is below 75 percent.
\<close>

definition stated_eyeContact :: "bool list \<Rightarrow> real" where
  "stated_eyeContact h =
     (let fraction = real (length (filter id h)) / real (length h)
      in if fraction < 0.75 then fraction * 100 * fraction else fraction * 100)"

text \<open>
  The pause ratio as the specification words it: one minus the share of speech ticks in
  the window, times 100.
\<close>

definition stated_pauseRatio :: "(int \<times> bool) list \<Rightarrow> real" where
  "stated_pauseRatio h = (1 - real (length (filter snd h)) / real (length h)) * 100"

text \<open>
  The question text as the specification words it: the tool-supplied text, else the
  agent-question scratch buffer, else the generic placeholder.
\<close>

definition stated_question :: "AssessmentArgs \<Rightarrow> jsString \<Rightarrow> jsString" where
  "stated_question args scratch =
     (case full_question_text args of
        Some q \<Rightarrow> if q \<noteq> [] then q
                  else if scratch \<noteq> [] then scratch else str ''Interview Question''
      | None \<Rightarrow> if scratch \<noteq> [] then scratch else str ''Interview Question'')"

text \<open>A string that is there and not empty, as \<^verbatim>\<open>||\<close> tests it.\<close>

definition present :: "jsString option \<Rightarrow> bool" where
  "present v = (case v of None \<Rightarrow> False | Some s \<Rightarrow> s \<noteq> [])"

text \<open>An arguments object with no field, and a configuration to start a session with.\<close>

definition noArgs :: AssessmentArgs where
  "noArgs =
     \<lparr> full_question_text = None, question_topic = None, user_answer_summary = None,
       content_score = None, delivery_score = None, feedback_arg = None,
       strengths_arg = None, areas_for_improvement = None \<rparr>"

definition sampleConfig :: InterviewConfig where
  "sampleConfig =
     \<lparr> industry = str ''Software'', roleTitle = Some (str ''Engineer''), duration = 10,
       difficulty = STANDARD, jdText = [], resumeText = [] \<rparr>"

text \<open>
  A run of the audio loop over ticks, each with the analyser's data and the two clock
  readings; a tick is loud when its energy exceeds the speech threshold.
\<close>

definition loud :: "nat list \<Rightarrow> bool" where
  "loud dataArray = (byte_rms dataArray > SILENCE_THRESHOLD)"

definition audioRun :: "AnalysisService \<Rightarrow> (nat list \<times> int \<times> int) list \<Rightarrow> AnalysisService" where
  "audioRun s evs = foldl (\<lambda>s ev. processAudioLoop s (fst ev) (fst (snd ev)) (snd (snd ev))) s evs"

text \<open>A landmark set whose points all sit at the centre, and one with the nose far left.\<close>

definition centred :: "landmark list" where
  "centred = replicate 478 \<lparr> lm_x = 0.5, lm_y = 0.5, lm_z = 0 \<rparr>"

definition turnedAway :: "landmark list" where
  "turnedAway = replicate 478 \<lparr> lm_x = 0.1, lm_y = 0.5, lm_z = 0 \<rparr>"

text \<open>A service whose gaze history holds some frames looking away, then some looking.\<close>

definition watched :: "nat \<Rightarrow> nat \<Rightarrow> AnalysisService" where
  "watched away looking = newService\<lparr>gazeHistory := replicate away False @ replicate looking True\<rparr>"

text \<open>
  A tick below the speech threshold, and a tick both of whose clock readings fall before
  the silence timeout has elapsed since \<open>t0\<close>.
\<close>

definition quietTick :: "nat list \<times> int \<times> int \<Rightarrow> bool" where
  "quietTick ev = (\<not> loud (fst ev))"

definition withinHangover :: "int \<Rightarrow> nat list \<times> int \<times> int \<Rightarrow> bool" where
  "withinHangover t0 ev =
     (fst (snd ev) \<le> snd (snd ev) \<and> snd (snd ev) - t0 < SILENCE_TIMEOUT)"

text \<open>
  A message in which the agent says a text, and a session in which the agent asks one
  question and two \<^verbatim>\<open>save_assessment\<close> calls without arguments follow, with no
  further word of the agent between them.
\<close>

definition agentSays :: "jsString \<Rightarrow> LiveServerMessage" where
  "agentSays txt =
     \<lparr> parts = Some [\<lparr> inlineData = None, partText = Some txt, clock = 0 \<rparr>],
       toolCall = None \<rparr>"

definition sampleSession :: InterviewGraph where
  "sampleSession = startSession (newInterviewGraph sampleConfig True newService True) 1 None"

definition afterFirstAnswer :: InterviewGraph where
  "afterFirstAnswer =
     safeHandleMessage
       (safeHandleMessage sampleSession (agentSays (str ''Tell me about yourself.'')))
       (saveAssessment noArgs (0, 0))"

definition afterSecondAnswer :: InterviewGraph where
  "afterSecondAnswer = safeHandleMessage afterFirstAnswer (saveAssessment noArgs (0, 0))"

section \<open>No transmission after close\<close>

lemma safeSend_closed:
  "\<not> isSessionOpen c \<Longrightarrow> wire (safeSend c d) = wire c"
  by (simp add: safeSend_def Let_def)

lemma onaudioprocess_closed:
  "\<not> isSessionOpen c \<Longrightarrow> onaudioprocess c input now = c"
  by (simp add: onaudioprocess_def)

lemma captureTick_closed:
  "\<not> isSessionOpen c \<Longrightarrow> captureTick c ev = c"
  by (simp add: captureTick_def onaudioprocess_closed split: option.split)

lemma captureTick_detached:
  "inputProcessor c = None \<Longrightarrow> captureTick c ev = c"
  by (simp add: captureTick_def)

lemma ticks_closed:
  "\<not> isSessionOpen c \<Longrightarrow> foldl captureTick c evs = c"
  by (induction evs) (simp_all add: captureTick_closed)

lemma handler_runs_closed:
  "\<not> isSessionOpen c \<Longrightarrow> foldl (\<lambda>s ev. onaudioprocess s (fst ev) (snd ev)) c evs = c"
  by (induction evs) (simp_all add: onaudioprocess_closed)

lemma ticks_detached:
  "inputProcessor c = None \<Longrightarrow> foldl captureTick c evs = c"
  by (induction evs) (simp_all add: captureTick_detached)

lemma stopAudioInput_processor [simp]:
  "inputProcessor (stopAudioInput c) = None"
  by (simp add: stopAudioInput_def split: option.split)

lemma stopAudioInput_source [simp]:
  "inputSource (stopAudioInput c) = None"
  by (simp add: stopAudioInput_def split: option.split)

lemma disconnect_tail_closed:
  "\<not> isSessionOpen c \<Longrightarrow> \<not> isSessionOpen (fst (disconnect_tail c))"
  by (simp add: disconnect_tail_def stopAll_def Let_def split: option.split)

lemma disconnect_start_closed [simp]:
  "\<not> isSessionOpen (fst (disconnect_start c))"
  by (simp add: disconnect_start_def Let_def disconnect_tail_closed split: option.split)

lemma disconnect_resume_closed:
  "\<not> isSessionOpen (fst cp) \<Longrightarrow> \<not> isSessionOpen (fst (disconnect_resume cp))"
  by (cases cp rule: disconnect_resume.cases) (simp_all add: disconnect_tail_closed)

lemma disconnect_closed [simp]:
  "\<not> isSessionOpen (disconnect c)"
  by (simp add: disconnect_def disconnect_resume_closed)

lemma disconnect_tail_sent:
  "wire (fst (disconnect_tail c)) = wire c \<and>
   safeSendCalls (fst (disconnect_tail c)) = safeSendCalls c"
  by (simp add: disconnect_tail_def stopAll_def Let_def split: option.split)

lemma disconnect_resume_sent:
  "wire (fst (disconnect_resume cp)) = wire (fst cp) \<and>
   safeSendCalls (fst (disconnect_resume cp)) = safeSendCalls (fst cp)"
  by (cases cp rule: disconnect_resume.cases) (simp_all add: disconnect_tail_sent)

lemma after_close_closed:
  assumes "\<not> isSessionOpen (fst cp)"
  shows "\<not> isSessionOpen (fst (after_close cp ev)) \<and>
         wire (fst (after_close cp ev)) = wire (fst cp) \<and>
         safeSendCalls (fst (after_close cp ev)) = safeSendCalls (fst cp)"
proof (cases cp)
  case (Pair c pc)
  with assms have closed: "\<not> isSessionOpen c" by simp
  show ?thesis
  proof (cases ev)
    case (HandlerRuns input now)
    with Pair closed show ?thesis by (simp add: onaudioprocess_closed)
  next
    case (CaptureTick input now)
    with Pair closed show ?thesis by (simp add: captureTick_closed)
  next
    case CleanupResumes
    with Pair closed disconnect_resume_closed [of "(c, pc)"] disconnect_resume_sent [of "(c, pc)"]
    show ?thesis by simp
  qed
qed

lemma after_close_run:
  "\<not> isSessionOpen (fst cp) \<Longrightarrow>
     \<not> isSessionOpen (fst (foldl after_close cp evs)) \<and>
     wire (fst (foldl after_close cp evs)) = wire (fst cp) \<and>
     safeSendCalls (fst (foldl after_close cp evs)) = safeSendCalls (fst cp)"
proof (induction evs arbitrary: cp)
  case Nil
  then show ?case by simp
next
  case (Cons ev evs)
  from after_close_closed [OF Cons.prems, of ev] Cons.IH [of "after_close cp ev"]
  show ?case by simp
qed

text \<open>
  C1. Once \<^verbatim>\<open>disconnect\<close> has been called, its first segment has cleared the open flag
  before any cleanup, and from then on no capture tick transmits: whatever mix of handler
  runs, device ticks and cleanup steps follows, the number of transmitted frames and the
  number of entries into \<^verbatim>\<open>safeSend\<close> stay what they were. The same holds after the
  whole \<^verbatim>\<open>disconnect\<close>, and after \<^verbatim>\<open>stopAudioInput\<close> alone, whose processor node
  has lost its handler: ticks leave the client as it is.
\<close>

theorem no_transmission_after_close:
  "transmitted (fst (foldl after_close (disconnect_start c) evs)) =
     transmitted (fst (disconnect_start c)) \<and>
   safeSendCalls (fst (foldl after_close (disconnect_start c) evs)) =
     safeSendCalls (fst (disconnect_start c)) \<and>
   foldl captureTick (disconnect c) ticks = disconnect c \<and>
   foldl captureTick (stopAudioInput c) ticks = stopAudioInput c"
proof -
  have "\<not> isSessionOpen (fst (disconnect_start c))" by simp
  from after_close_run [OF this, of evs]
  have "transmitted (fst (foldl after_close (disconnect_start c) evs)) =
          transmitted (fst (disconnect_start c))"
    and "safeSendCalls (fst (foldl after_close (disconnect_start c) evs)) =
          safeSendCalls (fst (disconnect_start c))"
    by (simp_all add: transmitted_def)
  moreover have "foldl captureTick (disconnect c) ticks = disconnect c"
    by (rule ticks_closed) simp
  moreover have "foldl captureTick (stopAudioInput c) ticks = stopAudioInput c"
    by (rule ticks_detached) simp
  ultimately show ?thesis by simp
qed

section \<open>Disconnecting twice\<close>

lemma closedView_stopAudioInput: "closedView (stopAudioInput c) = closedView c"
  by (simp add: closedView_def stopAudioInput_def split: option.split)

lemma closedView_tail: "closedView (fst (disconnect_tail c)) = closedView c"
  by (simp add: closedView_def disconnect_tail_def stopAll_def Let_def split: option.split)

lemma closedView_start: "closedView (fst (disconnect_start c)) = closedView c"
proof -
  have "closedView ((stopAudioInput c)\<lparr>isSessionOpen := False\<rparr>) = closedView c"
    using closedView_stopAudioInput [of c] by (simp add: closedView_def)
  then show ?thesis
    using closedView_tail [of "(stopAudioInput c)\<lparr>isSessionOpen := False\<rparr>"]
    by (simp add: disconnect_start_def Let_def closedView_def split: option.split)
qed

lemma closedView_resume: "closedView (fst (disconnect_resume (c, p))) = closedView c"
  by (cases p) (simp_all add: closedView_tail, simp add: closedView_def)

lemma phases_stopAudioInput:
  "phaseB (stopAudioInput c) = phaseB c" "phaseC (stopAudioInput c) = phaseC c"
  "inputProcessor (stopAudioInput c) = None" "inputSource (stopAudioInput c) = None"
  "isSessionOpen (stopAudioInput c) = isSessionOpen c"
  "session (stopAudioInput c) = session c"
  by (simp_all add: phaseB_def phaseC_def stopAudioInput_def split: option.split)

lemma tail_ok:
  "phaseA c \<Longrightarrow> pc_ok (fst (disconnect_tail c)) (snd (disconnect_tail c))"
  by (simp add: disconnect_tail_def stopAll_def Let_def phaseA_def phaseB_def phaseC_def
      split: option.split)

lemma tail_keeps:
  "phaseA c \<Longrightarrow> phaseA (fst (disconnect_tail c))"
  "phaseB (fst (disconnect_tail c))"
  "phaseC c \<Longrightarrow> phaseC (fst (disconnect_tail c))"
  by (simp_all add: disconnect_tail_def stopAll_def Let_def phaseA_def phaseB_def phaseC_def
      split: option.split)

lemma start_ok: "pc_ok (fst (disconnect_start c)) (snd (disconnect_start c))"
proof -
  let ?c1 = "(stopAudioInput c)\<lparr>isSessionOpen := False\<rparr>"
  have a: "phaseA ?c1" by (simp add: phaseA_def phases_stopAudioInput)
  show ?thesis
  proof (cases "session ?c1")
    case None
    then show ?thesis using tail_ok [OF a] by (simp add: disconnect_start_def Let_def)
  next
    case (Some s)
    then show ?thesis using a by (simp add: disconnect_start_def Let_def phaseA_def)
  qed
qed

lemma start_keeps:
  "phaseB c \<Longrightarrow> phaseB (fst (disconnect_start c))"
  "phaseC c \<Longrightarrow> phaseC (fst (disconnect_start c))"
  "phaseA (fst (disconnect_start c))"
proof -
  let ?c1 = "(stopAudioInput c)\<lparr>isSessionOpen := False\<rparr>"
  have a: "phaseA ?c1" by (simp add: phaseA_def phases_stopAudioInput)
  show "phaseA (fst (disconnect_start c))"
    using tail_keeps(1) [OF a] a
    by (simp add: disconnect_start_def Let_def phaseA_def split: option.split)
  show "phaseB c \<Longrightarrow> phaseB (fst (disconnect_start c))"
    using tail_keeps(2) [of ?c1]
    by (simp add: disconnect_start_def Let_def phaseB_def phases_stopAudioInput split: option.split)
  show "phaseC c \<Longrightarrow> phaseC (fst (disconnect_start c))"
  proof -
    assume "phaseC c"
    then have "phaseC ?c1" using phases_stopAudioInput(2) [of c] by (simp add: phaseC_def)
    from tail_keeps(3) [OF this] \<open>phaseC ?c1\<close> show ?thesis
      by (simp add: disconnect_start_def Let_def phaseC_def split: option.split)
  qed
qed

lemma start_keeps_ok: "pc_ok c p \<Longrightarrow> pc_ok (fst (disconnect_start c)) p"
  by (cases p) (simp_all add: start_keeps)

lemma resume_keeps:
  "phaseA c \<Longrightarrow> phaseA (fst (disconnect_resume (c, p)))"
  "phaseB c \<Longrightarrow> phaseB (fst (disconnect_resume (c, p)))"
  "phaseC c \<Longrightarrow> phaseC (fst (disconnect_resume (c, p)))"
  by (cases p; simp add: tail_keeps; simp add: phaseA_def phaseB_def phaseC_def)+

lemma resume_ok: "pc_ok c p \<Longrightarrow> pc_ok (fst (disconnect_resume (c, p))) (snd (disconnect_resume (c, p)))"
  by (cases p) (simp_all add: tail_ok, simp_all add: phaseA_def phaseB_def phaseC_def)

lemma resume_keeps_ok: "pc_ok c q \<Longrightarrow> pc_ok (fst (disconnect_resume (c, p))) q"
  by (cases q) (simp_all add: resume_keeps)


lemma snd_resume_twice: "snd (disconnect_resume (disconnect_resume cp)) = Finished"
  by (cases cp rule: disconnect_resume.cases)
     (simp_all add: disconnect_tail_def Let_def split: option.split)

lemma closed_is_view: "pc_ok c Finished \<Longrightarrow> clientFields c = closedView c"
  by (cases c) (simp add: clientFields_def closedView_def phaseA_def phaseB_def phaseC_def)

lemma disconnect_closed_id: "pc_ok c Finished \<Longrightarrow> disconnect c = c"
  by (cases c)
     (simp add: disconnect_def disconnect_start_def disconnect_tail_def stopAll_def
        stopAudioInput_def Let_def phaseA_def phaseB_def phaseC_def)

lemma disconnect_ok: "pc_ok (disconnect c) Finished"
proof -
  let ?r1 = "disconnect_resume (disconnect_start c)"
  have "pc_ok (fst ?r1) (snd ?r1)"
    using resume_ok [OF start_ok, of c] by simp
  from resume_ok [OF this] show ?thesis
    by (simp add: disconnect_def snd_resume_twice)
qed

lemma closedView_disconnect: "closedView (disconnect c) = closedView c"
proof -
  let ?s = "disconnect_start c"
  let ?r1 = "disconnect_resume ?s"
  have "closedView (fst (disconnect_resume ?r1)) = closedView (fst ?r1)"
    using closedView_resume [of "fst ?r1" "snd ?r1"] by simp
  also have "\<dots> = closedView (fst ?s)"
    using closedView_resume [of "fst ?s" "snd ?s"] by simp
  also have "\<dots> = closedView c" by (rule closedView_start)
  finally show ?thesis by (simp add: disconnect_def)
qed

lemma resume2_inv:
  assumes "pc_ok c p" "pc_ok c q"
  shows "pc_ok (fst (resume2 (c, p, q) b)) (fst (snd (resume2 (c, p, q) b))) \<and>
         pc_ok (fst (resume2 (c, p, q) b)) (snd (snd (resume2 (c, p, q) b))) \<and>
         closedView (fst (resume2 (c, p, q) b)) = closedView c"
  using assms by (cases b) (simp_all add: resume_ok resume_keeps_ok closedView_resume)

lemma run2_inv:
  "pc_ok (fst st) (fst (snd st)) \<Longrightarrow> pc_ok (fst st) (snd (snd st)) \<Longrightarrow>
     pc_ok (fst (foldl resume2 st sched)) (fst (snd (foldl resume2 st sched))) \<and>
     pc_ok (fst (foldl resume2 st sched)) (snd (snd (foldl resume2 st sched))) \<and>
     closedView (fst (foldl resume2 st sched)) = closedView (fst st)"
proof (induction sched arbitrary: st)
  case Nil
  then show ?case by simp
next
  case (Cons b sched)
  obtain c p q where st: "st = (c, p, q)" by (cases st)
  from Cons.prems st have ok: "pc_ok c p" "pc_ok c q" by simp_all
  from resume2_inv [OF ok, of b] Cons.IH [of "resume2 (c, p, q) b"] st
  show ?case by simp
qed

lemma run2_finishes:
  "fst (snd (foldl resume2 st [True, True, False, False])) = Finished \<and>
   snd (snd (foldl resume2 st [True, True, False, False])) = Finished"
proof -
  obtain c p q where st: "st = (c, p, q)" by (cases st)
  show ?thesis unfolding st
    by (cases p; cases q)
       (simp_all add: disconnect_tail_def Let_def split: option.split)
qed

lemma overlapped_view:
  "pc_ok (disconnect_overlapped c sched) Finished \<and>
   closedView (disconnect_overlapped c sched) = closedView c"
proof -
  let ?first = "disconnect_start c"
  let ?second = "disconnect_start (fst ?first)"
  let ?st = "(fst ?second, snd ?first, snd ?second)"
  let ?mid = "foldl resume2 ?st sched"
  let ?fin = "foldl resume2 ?mid [True, True, False, False]"
  have ok1: "pc_ok (fst ?st) (fst (snd ?st))"
    using start_keeps_ok [OF start_ok, of c] by simp
  have ok2: "pc_ok (fst ?st) (snd (snd ?st))"
    using start_ok [of "fst ?first"] by simp
  have view: "closedView (fst ?st) = closedView c"
    using closedView_start [of "fst ?first"] closedView_start [of c] by simp
  from run2_inv [OF ok1 ok2, of sched]
  have mid: "pc_ok (fst ?mid) (fst (snd ?mid))" "pc_ok (fst ?mid) (snd (snd ?mid))"
    "closedView (fst ?mid) = closedView (fst ?st)" by simp_all
  from run2_inv [OF mid(1) mid(2), of "[True, True, False, False]"] run2_finishes [of ?mid]
  have "pc_ok (fst ?fin) Finished" "closedView (fst ?fin) = closedView (fst ?mid)"
    by simp_all
  with mid(3) view show ?thesis
    by (simp add: disconnect_overlapped_def Let_def)
qed

lemma disconnect_effects:
  "effects (disconnect c) = effects c @ releaseCalls c"
  by (auto simp: disconnect_def disconnect_start_def disconnect_tail_def stopAll_def
      stopAudioInput_def releaseCalls_def Let_def split: option.split)

lemma keeps_refl: "keeps c c"
  by (simp add: keeps_def)

lemma tail_keeps_calls:
  assumes "keeps c0 c"
  shows "keeps c0 (fst (disconnect_tail c))"
    and "closing (fst (disconnect_tail c)) (snd (disconnect_tail c))"
    and "closing c p \<Longrightarrow> closing (fst (disconnect_tail c)) p"
  using assms
  by (auto simp: keeps_def closing_def disconnect_tail_def stopAll_def Let_def
      split: option.split)

lemma stopAudioInput_keeps_calls:
  assumes "keeps c0 c"
  shows "keeps c0 ((stopAudioInput c)\<lparr>isSessionOpen := False\<rparr>)"
    and "closing c p \<Longrightarrow> closing ((stopAudioInput c)\<lparr>isSessionOpen := False\<rparr>) p"
  using assms
  by (auto simp: keeps_def closing_def stopAudioInput_def split: option.split)

lemma start_keeps_calls:
  assumes "keeps c0 c"
  shows "keeps c0 (fst (disconnect_start c))"
    and "closing (fst (disconnect_start c)) (snd (disconnect_start c))"
    and "closing c p \<Longrightarrow> closing (fst (disconnect_start c)) p"
proof -
  let ?c1 = "(stopAudioInput c)\<lparr>isSessionOpen := False\<rparr>"
  note k1 = stopAudioInput_keeps_calls(1) [OF assms]
  show "keeps c0 (fst (disconnect_start c))"
    using tail_keeps_calls(1) [OF k1] k1
    by (auto simp: disconnect_start_def Let_def keeps_def split: option.split)
  show "closing (fst (disconnect_start c)) (snd (disconnect_start c))"
    using tail_keeps_calls(2) [OF k1]
    by (auto simp: disconnect_start_def Let_def closing_def split: option.split)
  show "closing c p \<Longrightarrow> closing (fst (disconnect_start c)) p"
    using tail_keeps_calls(3) [OF k1, of p] stopAudioInput_keeps_calls(2) [OF assms, of p]
    by (auto simp: disconnect_start_def Let_def closing_def split: option.split)
qed

lemma resume_keeps_calls:
  assumes "keeps c0 c" "closing c p"
  shows "keeps c0 (fst (disconnect_resume (c, p)))"
    and "closing (fst (disconnect_resume (c, p))) (snd (disconnect_resume (c, p)))"
    and "closing c q \<Longrightarrow> closing (fst (disconnect_resume (c, p))) q"
proof -
  show "keeps c0 (fst (disconnect_resume (c, p)))"
    using assms tail_keeps_calls(1) [OF assms(1)]
    by (cases p) (auto simp: keeps_def closing_def)
  show "closing (fst (disconnect_resume (c, p))) (snd (disconnect_resume (c, p)))"
    using tail_keeps_calls(2) [OF assms(1)]
    by (cases p) (auto simp: closing_def)
  show "closing c q \<Longrightarrow> closing (fst (disconnect_resume (c, p))) q"
    using tail_keeps_calls(3) [OF assms(1), of q]
    by (cases p) (auto simp: closing_def)
qed

lemma resume2_calls:
  assumes "keeps c0 c" "closing c p" "closing c q"
  shows "keeps c0 (fst (resume2 (c, p, q) b)) \<and>
         closing (fst (resume2 (c, p, q) b)) (fst (snd (resume2 (c, p, q) b))) \<and>
         closing (fst (resume2 (c, p, q) b)) (snd (snd (resume2 (c, p, q) b)))"
  using resume_keeps_calls [OF assms(1,2)] resume_keeps_calls [OF assms(1,3)] assms
  by (cases b) simp_all

lemma run2_calls:
  "keeps c0 (fst st) \<Longrightarrow> closing (fst st) (fst (snd st)) \<Longrightarrow> closing (fst st) (snd (snd st)) \<Longrightarrow>
     keeps c0 (fst (foldl resume2 st sched))"
proof (induction sched arbitrary: st)
  case Nil
  then show ?case by simp
next
  case (Cons b sched)
  obtain c p q where st: "st = (c, p, q)" by (cases st)
  from Cons.prems st have k: "keeps c0 c" "closing c p" "closing c q" by simp_all
  from resume2_calls [OF k, of b] Cons.IH [of "resume2 (c, p, q) b"] st
  show ?case by simp
qed

lemma start_calls_logged:
  "set (effects c) \<subseteq> set (effects (fst (disconnect_start c)))"
  "inputProcessor c \<noteq> None \<Longrightarrow> ProcessorDisconnect \<in> set (effects (fst (disconnect_start c)))"
  "inputSource c \<noteq> None \<Longrightarrow> InputSourceDisconnect \<in> set (effects (fst (disconnect_start c)))"
  "session c \<noteq> None \<Longrightarrow> SessionClose \<in> set (effects (fst (disconnect_start c)))"
  by (auto simp: disconnect_start_def disconnect_tail_def stopAll_def stopAudioInput_def
      Let_def split: option.split)

lemma overlapped_calls:
  "set (effects (disconnect c)) \<subseteq> set (effects (disconnect_overlapped c sched))"
proof -
  let ?first = "disconnect_start c"
  let ?second = "disconnect_start (fst ?first)"
  let ?st = "(fst ?second, snd ?first, snd ?second)"
  let ?end = "disconnect_overlapped c sched"
  have e: "?end = fst (foldl resume2 ?st (sched @ [True, True, False, False]))"
    by (simp add: disconnect_overlapped_def Let_def)
  have k1: "keeps c (fst ?first)" "closing (fst ?first) (snd ?first)"
    using start_keeps_calls(1,2) [OF keeps_refl [of c]] by simp_all
  have k2: "keeps c (fst ?second)" "closing (fst ?second) (snd ?second)"
    "closing (fst ?second) (snd ?first)"
    using start_keeps_calls [OF k1(1)] k1(2) by simp_all
  have k: "keeps c ?end"
    unfolding e by (rule run2_calls) (simp_all add: k2)
  have fin: "pc_ok ?end Finished"
    using overlapped_view [of c sched] by simp
  have mono1: "set (effects (fst ?first)) \<subseteq> set (effects ?end)"
  proof -
    have "keeps (fst ?first) (fst ?second)" "closing (fst ?second) (snd ?second)"
      using start_keeps_calls(1,2) [OF keeps_refl [of "fst ?first"]] by simp_all
    moreover have "closing (fst ?second) (snd ?first)"
      by (rule k2(3))
    ultimately have "keeps (fst ?first) ?end"
      unfolding e by (intro run2_calls) simp_all
    then show ?thesis by (simp add: keeps_def)
  qed
  from fin have closed: "audioQueue ?end = []" "audioContext ?end = None"
    by (simp_all add: phaseB_def phaseC_def)
  have stops: "set (map (\<lambda>s. SourceStop (node s)) (audioQueue c)) \<subseteq> set (effects ?end)"
    using k closed by (cases "audioQueue c") (auto simp: keeps_def)
  have ctx: "audioContext c \<noteq> None \<Longrightarrow> ContextClose \<in> set (effects ?end)"
    using k closed by (auto simp: keeps_def)
  have proc: "set (case inputProcessor c of None \<Rightarrow> [] | Some p \<Rightarrow> [ProcessorDisconnect])
                \<subseteq> set (effects ?end)"
    using start_calls_logged(2) [of c] mono1 by (cases "inputProcessor c") auto
  have src: "set (case inputSource c of None \<Rightarrow> [] | Some s \<Rightarrow> [InputSourceDisconnect])
                \<subseteq> set (effects ?end)"
    using start_calls_logged(3) [of c] mono1 by (cases "inputSource c") auto
  have sess: "set (case session c of None \<Rightarrow> [] | Some s \<Rightarrow> [SessionClose])
                \<subseteq> set (effects ?end)"
    using start_calls_logged(4) [of c] mono1 by (cases "session c") auto
  have ctx': "set (case audioContext c of None \<Rightarrow> [] | Some a \<Rightarrow> [ContextClose])
                \<subseteq> set (effects ?end)"
    using ctx by (cases "audioContext c") auto
  have "set (releaseCalls c) \<subseteq> set (effects ?end)"
    unfolding releaseCalls_def set_append using proc src sess stops ctx' by blast
  moreover have "set (effects c) \<subseteq> set (effects ?end)"
    using k by (simp add: keeps_def)
  ultimately show ?thesis by (simp add: disconnect_effects)
qed

text \<open>
  C9. A second \<^verbatim>\<open>disconnect\<close> changes nothing, not even the log of device calls; a
  second call issued while the first still awaits ends, under every order of resumption,
  in a client with the same fields; and from any state the end state has no session, no
  socket, the open flag false, an empty playback queue, no audio context and no capture
  nodes. What the client held is released by a call to the device: the first call logs
  exactly \<open>releaseCalls\<close> (the capture nodes disconnected, the session closed, every
  queued source stopped, the audio context closed), and every one of these calls is also
  logged when two calls overlap.
\<close>

theorem disconnect_idempotent:
  "disconnect (disconnect c) = disconnect c \<and>
   clientFields (disconnect_overlapped c sched) = clientFields (disconnect c) \<and>
   session (disconnect c) = None \<and> ws (disconnect c) = None \<and>
   isSessionOpen (disconnect c) = False \<and> audioQueue (disconnect c) = [] \<and>
   audioContext (disconnect c) = None \<and>
   inputProcessor (disconnect c) = None \<and> inputSource (disconnect c) = None \<and>
   effects (disconnect c) = effects c @ releaseCalls c \<and>
   effects (disconnect (disconnect c)) = effects c @ releaseCalls c \<and>
   set (effects c @ releaseCalls c) \<subseteq> set (effects (disconnect_overlapped c sched))"
proof -
  have ok: "pc_ok (disconnect c) Finished" by (rule disconnect_ok)
  have idem: "disconnect (disconnect c) = disconnect c"
    by (rule disconnect_closed_id [OF ok])
  have "clientFields (disconnect_overlapped c sched) = clientFields (disconnect c)"
    using overlapped_view [of c sched] closed_is_view [OF ok] closedView_disconnect [of c]
      closed_is_view [of "disconnect_overlapped c sched"] by simp
  moreover from ok have "session (disconnect c) = None \<and> ws (disconnect c) = None \<and>
      isSessionOpen (disconnect c) = False \<and> audioQueue (disconnect c) = [] \<and>
      audioContext (disconnect c) = None \<and>
      inputProcessor (disconnect c) = None \<and> inputSource (disconnect c) = None"
    by (simp add: phaseA_def phaseB_def phaseC_def)
  moreover have "effects (disconnect c) = effects c @ releaseCalls c"
    by (rule disconnect_effects)
  moreover have "effects (disconnect (disconnect c)) = effects c @ releaseCalls c"
    unfolding idem by (rule disconnect_effects)
  moreover have "set (effects c @ releaseCalls c) \<subseteq> set (effects (disconnect_overlapped c sched))"
    using overlapped_calls [of c sched] by (simp only: disconnect_effects)
  ultimately show ?thesis using idem by simp
qed

section \<open>Gapless playback\<close>

lemma gapless_snoc:
  "gapless (xs @ [a]) = (gapless xs \<and> (xs = [] \<or> endTime (last xs) \<le> startTime a))"
  by (induction xs rule: gapless.induct) (simp_all add: endTime_def)

lemma createAudioBuffer_duration:
  "createAudioBuffer pcm = Inr buf \<Longrightarrow> 0 < abDuration buf"
  by (auto simp: createAudioBuffer_def OUTPUT_SAMPLE_RATE_def split: if_splits)

lemma queueAudio_cases:
  "queueAudio c d t = c \<or>
   (\<exists>dur > 0. queueAudio c d t =
      c\<lparr>nextStartTime := max t (nextStartTime c) + dur,
        audioQueue := audioQueue c @
          [\<lparr> node = fresh c, startTime = max t (nextStartTime c), bufDuration = dur \<rparr>],
        started := started c @
          [\<lparr> node = fresh c, startTime = max t (nextStartTime c), bufDuration = dur \<rparr>],
        fresh := Suc (fresh c)\<rparr>)"
proof (cases "audioContext c = None \<or> \<not> isSessionOpen c")
  case True
  then show ?thesis by (auto simp: queueAudio_def)
next
  case gate: False
  show ?thesis
  proof (cases "fromBase64 d")
    case (Inl e)
    with gate show ?thesis by (simp add: queueAudio_def)
  next
    case (Inr pcm)
    show ?thesis
    proof (cases "createAudioBuffer pcm")
      case (Inl e)
      with gate Inr show ?thesis by (simp add: queueAudio_def)
    next
      case buf: (Inr buf)
      have m: "(if nextStartTime c < t then t else nextStartTime c) = max t (nextStartTime c)"
        by (simp add: max_def)
      from createAudioBuffer_duration [OF buf] have "0 < abDuration buf" .
      moreover from gate Inr buf m have "queueAudio c d t =
        c\<lparr>nextStartTime := max t (nextStartTime c) + abDuration buf,
          audioQueue := audioQueue c @
            [\<lparr> node = fresh c, startTime = max t (nextStartTime c), bufDuration = abDuration buf \<rparr>],
          started := started c @
            [\<lparr> node = fresh c, startTime = max t (nextStartTime c), bufDuration = abDuration buf \<rparr>],
          fresh := Suc (fresh c)\<rparr>"
        by (auto simp: queueAudio_def Let_def)
      ultimately show ?thesis by blast
    qed
  qed
qed

lemma queueAudio_inv:
  assumes "gapless (started c)" "tracksEnd c"
  shows "gapless (started (queueAudio c d t)) \<and> tracksEnd (queueAudio c d t)"
proof -
  from queueAudio_cases [of c d t] show ?thesis
  proof
    assume "queueAudio c d t = c"
    with assms show ?thesis by simp
  next
    assume "\<exists>dur > 0. queueAudio c d t =
      c\<lparr>nextStartTime := max t (nextStartTime c) + dur,
        audioQueue := audioQueue c @
          [\<lparr> node = fresh c, startTime = max t (nextStartTime c), bufDuration = dur \<rparr>],
        started := started c @
          [\<lparr> node = fresh c, startTime = max t (nextStartTime c), bufDuration = dur \<rparr>],
        fresh := Suc (fresh c)\<rparr>"
    then obtain dur where q: "queueAudio c d t =
      c\<lparr>nextStartTime := max t (nextStartTime c) + dur,
        audioQueue := audioQueue c @
          [\<lparr> node = fresh c, startTime = max t (nextStartTime c), bufDuration = dur \<rparr>],
        started := started c @
          [\<lparr> node = fresh c, startTime = max t (nextStartTime c), bufDuration = dur \<rparr>],
        fresh := Suc (fresh c)\<rparr>" by blast
    have "started c = [] \<or> endTime (last (started c)) \<le> max t (nextStartTime c)"
    proof (cases "started c" rule: rev_cases)
      case Nil
      then show ?thesis by simp
    next
      case (snoc earlier s)
      with assms(2) have "nextStartTime c = endTime s" by (simp add: tracksEnd_def)
      with snoc show ?thesis by simp
    qed
    with assms(1) q show ?thesis
      by (simp add: gapless_snoc tracksEnd_def endTime_def)
  qed
qed

lemma feed_inv:
  "gapless (started c) \<Longrightarrow> tracksEnd c \<Longrightarrow>
     gapless (started (feed c evs)) \<and> tracksEnd (feed c evs)"
proof (induction evs arbitrary: c)
  case Nil
  then show ?case by (simp add: feed_def)
next
  case (Cons ev evs)
  from queueAudio_inv [OF Cons.prems, of "fst ev" "snd ev"]
    Cons.IH [of "queueAudio c (fst ev) (snd ev)"]
  show ?case by (simp add: feed_def)
qed

text \<open>
  C4. Each accepted fragment is started at the later of the playback clock and
  \<open>nextStartTime\<close>, which then moves to the end of that buffer; a fragment that is not
  accepted changes nothing. So when \<open>nextStartTime\<close> is the end of the last buffer
  started and the buffers started so far do not overlap, the same holds after any
  sequence of fragments: every buffer starts at the maximum of the clock and its
  predecessor's end, hence never before that end.
\<close>

theorem playback_gapless:
  assumes "gapless (started c)" and "tracksEnd c"
  shows "gapless (started (feed c evs)) \<and> tracksEnd (feed c evs) \<and>
         (queueAudio c d t = c \<or>
          (\<exists>src. started (queueAudio c d t) = started c @ [src] \<and>
                 startTime src = max t (nextStartTime c) \<and>
                 nextStartTime (queueAudio c d t) = endTime src))"
proof -
  have "queueAudio c d t = c \<or>
          (\<exists>src. started (queueAudio c d t) = started c @ [src] \<and>
                 startTime src = max t (nextStartTime c) \<and>
                 nextStartTime (queueAudio c d t) = endTime src)"
    using queueAudio_cases [of c d t] by (auto simp: endTime_def)
  with feed_inv [OF assms, of evs] show ?thesis by simp
qed

lemma connectedClient_simps:
  "audioContext connectedClient = Some \<lparr> sampleRate = 24000 \<rparr>"
  "isSessionOpen connectedClient" "session connectedClient = Some 1"
  "ws connectedClient = Some WS_OPEN" "started connectedClient = []"
  "nextStartTime connectedClient = 0" "wire connectedClient = []"
  "audioQueue connectedClient = []" "fresh connectedClient = 0"
  "inputProcessor connectedClient = None" "isSpeaking connectedClient = False"
  "lastSpeechTime connectedClient = 0"
  by (simp_all add: connectedClient_def connect_resolved_def connect_begin_def
      disconnect_start_def disconnect_tail_def stopAll_def stopAudioInput_def newClient_def
      OUTPUT_SAMPLE_RATE_def Let_def)

theorem playback_gapless_witness:
  "gapless (started connectedClient) \<and> tracksEnd connectedClient \<and>
   started (feed connectedClient [(Bytes [0, 0, 0, 0], 1), (Bytes [0, 0], 1 / 2)]) =
     [\<lparr> node = 0, startTime = 1, bufDuration = 1 / 12000 \<rparr>,
      \<lparr> node = 1, startTime = 12001 / 12000, bufDuration = 1 / 24000 \<rparr>] \<and>
   gapless (started (feed connectedClient [(Bytes [0, 0, 0, 0], 1), (Bytes [0, 0], 1 / 2)]))"
proof -
  have g: "gapless (started connectedClient)" and t: "tracksEnd connectedClient"
    by (simp_all add: connectedClient_simps tracksEnd_def)
  have "started (feed connectedClient [(Bytes [0, 0, 0, 0], 1), (Bytes [0, 0], 1 / 2)]) =
     [\<lparr> node = 0, startTime = 1, bufDuration = 1 / 12000 \<rparr>,
      \<lparr> node = 1, startTime = 12001 / 12000, bufDuration = 1 / 24000 \<rparr>]"
    by (simp add: feed_def queueAudio_def connectedClient_simps fromBase64_def
        createAudioBuffer_def OUTPUT_SAMPLE_RATE_def Let_def)
  with g t playback_gapless [OF g t, of "[(Bytes [0, 0, 0, 0], 1), (Bytes [0, 0], 1 / 2)]"]
  show ?thesis by simp
qed

section \<open>The frame of a capture tick\<close>

lemma frame_rms_silence: "frame_rms (replicate n 0) = 0"
  by (simp add: frame_rms_def map_replicate_const sum_list_replicate)

lemma capturing_simps:
  "inputProcessor (startAudioInput connectedClient) = Some 1"
  "isSessionOpen (startAudioInput connectedClient)"
  "session (startAudioInput connectedClient) = Some 1"
  "ws (startAudioInput connectedClient) = Some WS_OPEN"
  "wire (startAudioInput connectedClient) = []"
  "isSpeaking (startAudioInput connectedClient) = False"
  "lastSpeechTime (startAudioInput connectedClient) = 0"
  "audioContext (startAudioInput connectedClient) = Some \<lparr> sampleRate = 24000 \<rparr>"
  by (simp_all add: startAudioInput_def connectedClient_simps)

text \<open>
  C3. A connected client with capture running receives a tick whose frame is 4096
  samples of silence at the context's 24 kHz. What goes out is a frame of 320 zero
  samples, 20 ms at 16 kHz, while the captured frame lasts 4096 / 24000 s (about 171 ms);
  downsampling the same frame would have given 2730 samples.
\<close>

theorem silent_tick_sends_320:
  "wire (captureTick (startAudioInput connectedClient) (replicate 4096 0, 5000)) =
     [Media (replicate 320 0)] \<and>
   real 320 / INPUT_SAMPLE_RATE = 1 / 50 \<and>
   real 4096 / sampleRate (the (audioContext (startAudioInput connectedClient))) = 64 / 375 \<and>
   map_sum id length (downsample (replicate 4096 0) 24000 INPUT_SAMPLE_RATE) = Inr 2730"
  by (simp add: captureTick_def onaudioprocess_def capturing_simps vadUpdate_def
      frame_rms_silence tickFrame_def safeSend_def INPUT_SAMPLE_RATE_def downsample_def
      Let_def)


section \<open>Tool calls and the end of the interview\<close>

lemma totalQs_ge3: "3 \<le> totalQs d"
  by (simp add: totalQs_def)

lemma started_session_client:
  "liveClient (startSession (newInterviewGraph cfg e svc api) sid websocket) =
     (startAudioInput connectedClient)\<lparr>session := Some sid, ws := websocket\<rparr>"
  by (simp add: startSession_def newInterviewGraph_def socketOpened_def Let_def
      connectedClient_def connect_resolved_def connect_begin_def disconnect_start_def
      disconnect_tail_def stopAll_def stopAudioInput_def newClient_def startAudioInput_def)

lemma started_session_simps:
  "analyses (state (startSession (newInterviewGraph cfg e svc api) sid websocket)) = []"
  "transcript (state (startSession (newInterviewGraph cfg e svc api) sid websocket)) = []"
  "currentQuestionIndex (state (startSession (newInterviewGraph cfg e svc api) sid websocket)) = 0"
  "totalQuestions (state (startSession (newInterviewGraph cfg e svc api) sid websocket)) =
     totalQs (duration cfg)"
  "timers (startSession (newInterviewGraph cfg e svc api) sid websocket) = []"
  "completions (startSession (newInterviewGraph cfg e svc api) sid websocket) = []"
  "onEnd (startSession (newInterviewGraph cfg e svc api) sid websocket) = e"
  "connectionState (state (startSession (newInterviewGraph cfg e svc api) sid websocket)) = CONNECTED"
  by (simp_all add: startSession_def newInterviewGraph_def socketOpened_def Let_def)

lemma started_client_simps:
  "isSessionOpen ((startAudioInput connectedClient)\<lparr>session := Some sid, ws := websocket\<rparr>)"
  "session ((startAudioInput connectedClient)\<lparr>session := Some sid, ws := websocket\<rparr>) = Some sid"
  "ws ((startAudioInput connectedClient)\<lparr>session := Some sid, ws := websocket\<rparr>) = websocket"
  "wire ((startAudioInput connectedClient)\<lparr>session := Some sid, ws := websocket\<rparr>) = []"
  "safeSendCalls ((startAudioInput connectedClient)\<lparr>session := Some sid, ws := websocket\<rparr>) = 0"
  by (simp_all add: startAudioInput_def connectedClient_simps connectedClient_def
      connect_resolved_def connect_begin_def disconnect_start_def
      disconnect_tail_def stopAll_def stopAudioInput_def newClient_def Let_def)

text \<open>What one \<^verbatim>\<open>save_assessment\<close> call does to the counters, the logs and the client.\<close>

lemma handleAssessment_logs:
  "length (analyses (state (handleAssessment g args t1 t2))) = Suc (length (analyses (state g)))"
  "length (transcript (state (handleAssessment g args t1 t2))) = length (transcript (state g)) + 2"
  "currentQuestionIndex (state (handleAssessment g args t1 t2)) = currentQuestionIndex (state g)"
  "totalQuestions (state (handleAssessment g args t1 t2)) = totalQuestions (state g)"
  "liveClient (handleAssessment g args t1 t2) = liveClient g"
  "timers (handleAssessment g args t1 t2) = timers g"
  "completions (handleAssessment g args t1 t2) = completions g"
  "onEnd (handleAssessment g args t1 t2) = onEnd g"
  by (simp_all add: handleAssessment_def Let_def)

lemma save_call:
  "onToolCall g \<lparr> fcName = str ''save_assessment'', fcArgs = Some args, fcStamps = st \<rparr> = g' \<Longrightarrow>
   length (analyses (state g')) = Suc (length (analyses (state g))) \<and>
   length (transcript (state g')) = length (transcript (state g)) + 2 \<and>
   currentQuestionIndex (state g') = Suc (currentQuestionIndex (state g)) \<and>
   totalQuestions (state g') = totalQuestions (state g) \<and>
   completions g' = completions g \<and> onEnd g' = onEnd g \<and>
   (if totalQuestions (state g) \<le> Suc (currentQuestionIndex (state g))
    then liveClient g' = sendControlMessage (liveClient g) WRAP_UP \<and> timers g' = timers g @ [6000]
    else liveClient g' = liveClient g \<and> timers g' = timers g)"
  by (auto simp: onToolCall_def Let_def handleAssessment_logs)

lemma save_message:
  assumes "isSessionOpen (liveClient g)"
  shows "safeHandleMessage g (saveAssessment args st) =
           onToolCall g \<lparr> fcName = str ''save_assessment'', fcArgs = Some args, fcStamps = st \<rparr>"
  using assms by (simp add: safeHandleMessage_def saveAssessment_def)


lemma stopSession_simps:
  "\<not> isSessionOpen (liveClient (stopSession g))"
  "state (stopSession g) = (state g)\<lparr>connectionState := DISCONNECTED\<rparr>"
  "timers (stopSession g) = timers g"
  "completions (stopSession g) = completions g"
  "onEnd (stopSession g) = onEnd g"
  "wire (liveClient (stopSession g)) = wire (liveClient g)"
  using disconnect_start_closed [of "liveClient g"]
  by (simp_all add: stopSession_def Let_def split_beta disconnect_start_def
      disconnect_tail_sent stopAudioInput_def split: option.split)

lemma closed_ignores: "\<not> isSessionOpen (liveClient g) \<Longrightarrow> safeHandleMessage g m = g"
  by (simp add: safeHandleMessage_def)

lemma wrap_up_send:
  assumes "isSessionOpen c" "session c \<noteq> None"
  shows "wire (sendControlMessage c WRAP_UP) =
           wire c @ (if ws c = Some WS_OPEN then [Content (str ''[SYSTEM]: '' @ WRAP_UP)] else [])"
    and "safeSendCalls (sendControlMessage c WRAP_UP) = Suc (safeSendCalls c)"
  using assms by (auto simp: sendControlMessage_def safeSend_def Let_def)

text \<open>
  The run of a 10-minute interview, whatever the session object holds under
  \<^verbatim>\<open>websocket\<close>: the third call enters \<^verbatim>\<open>safeSend\<close> once with the wrap-up, which
  reaches the wire when that socket is there and open and is dropped otherwise; the
  timer, the completion callback and the logs do not depend on it.
\<close>

lemma interview_run:
  "(let g0 = startSession (newInterviewGraph (cfg\<lparr>duration := 10\<rparr>) True svc api) sid websocket;
        g2 = foldl safeHandleMessage g0 [saveAssessment a1 s1, saveAssessment a2 s2];
        g3 = safeHandleMessage g2 (saveAssessment a3 s3);
        g4 = timerFires g3
    in totalQuestions (state g0) = 3 \<and> ws (liveClient g0) = websocket \<and>
       wire (liveClient g2) = [] \<and> safeSendCalls (liveClient g2) = 0 \<and> timers g2 = [] \<and>
       totalQuestions (state g3) = 3 \<and>
       safeSendCalls (liveClient g3) = 1 \<and>
       wire (liveClient g3) =
         (if websocket = Some WS_OPEN then [Content (str ''[SYSTEM]: '' @ WRAP_UP)] else []) \<and>
       timers g3 = [6000] \<and> completions g3 = [] \<and>
       completions g4 = [state g4] \<and>
       length (analyses (state g4)) = 3 \<and> length (transcript (state g4)) = 6 \<and>
       wire (liveClient g4) = wire (liveClient g3) \<and>
       timers g4 = [] \<and> timerFires g4 = g4 \<and> safeHandleMessage g4 m = g4)"
proof -
  define g0 where
    "g0 = startSession (newInterviewGraph (cfg\<lparr>duration := 10\<rparr>) True svc api) sid websocket"
  define g1 where "g1 = safeHandleMessage g0 (saveAssessment a1 s1)"
  define g2 where "g2 = safeHandleMessage g1 (saveAssessment a2 s2)"
  define g3 where "g3 = safeHandleMessage g2 (saveAssessment a3 s3)"
  define g4 where "g4 = timerFires g3"
  have c0: "liveClient g0 = (startAudioInput connectedClient)\<lparr>session := Some sid, ws := websocket\<rparr>"
    unfolding g0_def by (rule started_session_client)
  have open0: "isSessionOpen (liveClient g0)" and sess0: "session (liveClient g0) \<noteq> None"
    and ws0: "ws (liveClient g0) = websocket" and wire0: "wire (liveClient g0) = []"
    and calls0: "safeSendCalls (liveClient g0) = 0"
    by (simp_all add: c0 started_client_simps)
  have s0: "totalQuestions (state g0) = 3" "currentQuestionIndex (state g0) = 0"
    "analyses (state g0) = []" "transcript (state g0) = []" "timers g0 = []"
    "completions g0 = []" "onEnd g0"
    unfolding g0_def by (simp_all add: started_session_simps totalQs_def)
  have s1: "totalQuestions (state g1) = 3" "currentQuestionIndex (state g1) = 1"
    "length (analyses (state g1)) = 1" "length (transcript (state g1)) = 2" "timers g1 = []"
    "completions g1 = []" "onEnd g1" "liveClient g1 = liveClient g0"
    using save_call [OF refl, of g0 a1 s1] s0
    by (simp_all add: g1_def save_message [OF open0])
  have open1: "isSessionOpen (liveClient g1)" using s1 open0 by simp
  have s2: "totalQuestions (state g2) = 3" "currentQuestionIndex (state g2) = 2"
    "length (analyses (state g2)) = 2" "length (transcript (state g2)) = 4" "timers g2 = []"
    "completions g2 = []" "onEnd g2" "liveClient g2 = liveClient g0"
    using save_call [OF refl, of g1 a2 s2] s1
    by (simp_all add: g2_def save_message [OF open1])
  have open2: "isSessionOpen (liveClient g2)" using s2 open0 by simp
  have s3: "totalQuestions (state g3) = 3" "currentQuestionIndex (state g3) = 3"
    "length (analyses (state g3)) = 3" "length (transcript (state g3)) = 6"
    "timers g3 = [6000]" "completions g3 = []" "onEnd g3"
    "liveClient g3 = sendControlMessage (liveClient g0) WRAP_UP"
    using save_call [OF refl, of g2 a3 s3] s2
    by (simp_all add: g3_def save_message [OF open2])
  have w2: "wire (liveClient g2) = []" "safeSendCalls (liveClient g2) = 0"
    by (simp_all add: s2 wire0 calls0)
  have w3: "wire (liveClient g3) =
      (if websocket = Some WS_OPEN then [Content (str ''[SYSTEM]: '' @ WRAP_UP)] else [])"
    "safeSendCalls (liveClient g3) = 1"
    using wrap_up_send [OF open0 sess0] by (simp_all add: s3 ws0 wire0 calls0)
  have g4: "g4 = (stopSession (g3\<lparr>timers := []\<rparr>))\<lparr>completions :=
      [state (stopSession (g3\<lparr>timers := []\<rparr>))]\<rparr>"
    using s3 by (simp add: g4_def timerFires_def Let_def stopSession_simps)
  have s4: "completions g4 = [state g4]" "length (analyses (state g4)) = 3"
    "length (transcript (state g4)) = 6" "timers g4 = []"
    "\<not> isSessionOpen (liveClient g4)" "wire (liveClient g4) = wire (liveClient g3)"
    using s3 by (simp_all add: g4 stopSession_simps)
  have again: "timerFires g4 = g4" using s4 by (simp add: timerFires_def)
  have ignored: "safeHandleMessage g4 m = g4" using s4 by (simp add: closed_ignores)
  from s0 ws0 s2 s3 s4 w2 w3 again ignored show ?thesis
    unfolding Let_def g0_def [symmetric]
    by (simp add: g1_def [symmetric] g2_def [symmetric] g3_def [symmetric] g4_def [symmetric])
qed

text \<open>
  C5. A configuration of 10 minutes gives three questions (20 gives five, 30 gives
  seven, and nothing else is ever given). The session is started on a session object
  that has no \<^verbatim>\<open>websocket\<close> property, so the client's socket field holds nothing. The
  first two \<^verbatim>\<open>save_assessment\<close> calls enter no send and set no timer; the third hands
  the wrap-up to \<^verbatim>\<open>safeSend\<close>, which returns at its first test, and sets the one timer
  of 6000 ms; when that timer fires the completion callback runs once, with three
  assessments and six transcript entries in the state, and to the end nothing has
  reached the wire.
\<close>

theorem wrap_up_dropped_without_socket:
  "(let g0 = startSession (newInterviewGraph (cfg\<lparr>duration := 10\<rparr>) True svc api) sid None;
        g2 = foldl safeHandleMessage g0 [saveAssessment a1 s1, saveAssessment a2 s2];
        g3 = safeHandleMessage g2 (saveAssessment a3 s3);
        g4 = timerFires g3
    in totalQuestions (state g0) = 3 \<and> ws (liveClient g0) = None \<and>
       safeSendCalls (liveClient g2) = 0 \<and> timers g2 = [] \<and>
       safeSendCalls (liveClient g3) = 1 \<and> wire (liveClient g3) = [] \<and>
       timers g3 = [6000] \<and> completions g3 = [] \<and>
       completions g4 = [state g4] \<and>
       length (analyses (state g4)) = 3 \<and> length (transcript (state g4)) = 6 \<and>
       wire (liveClient g4) = [] \<and>
       timers g4 = [] \<and> timerFires g4 = g4 \<and> safeHandleMessage g4 m = g4) \<and>
   totalQs 10 = 3 \<and> totalQs 20 = 5 \<and> totalQs 30 = 7 \<and> totalQs d \<in> {3, 5, 7}"
proof -
  have "totalQs 10 = 3 \<and> totalQs 20 = 5 \<and> totalQs 30 = 7 \<and> totalQs d \<in> {3, 5, 7}"
    by (simp add: totalQs_def)
  with interview_run [of cfg svc api sid None a1 s1 a2 s2 a3 s3 m] show ?thesis
    unfolding Let_def by simp
qed

text \<open>
  C2. In a started session a \<^verbatim>\<open>save_assessment\<close> call is received and its
  assessment appended, and nothing is sent back: the client's record of sends is as
  empty as before, and \<^verbatim>\<open>safeSend\<close> was never entered. This is so whatever the
  session object holds under \<^verbatim>\<open>websocket\<close>.
\<close>

theorem tool_call_gets_no_reply:
  "(let g0 = startSession (newInterviewGraph cfg e svc api) sid websocket;
        g1 = safeHandleMessage g0 (saveAssessment args st)
    in length (analyses (state g1)) = 1 \<and>
       wire (liveClient g1) = [] \<and> safeSendCalls (liveClient g1) = 0)"
proof -
  define g0 where "g0 = startSession (newInterviewGraph cfg e svc api) sid websocket"
  define g1 where "g1 = safeHandleMessage g0 (saveAssessment args st)"
  have c0: "liveClient g0 = (startAudioInput connectedClient)\<lparr>session := Some sid, ws := websocket\<rparr>"
    unfolding g0_def by (rule started_session_client)
  have open0: "isSessionOpen (liveClient g0)"
    by (simp add: c0 started_client_simps)
  have s0: "currentQuestionIndex (state g0) = 0" "analyses (state g0) = []"
    "3 \<le> totalQuestions (state g0)"
    unfolding g0_def by (simp_all add: started_session_simps totalQs_ge3)
  have "length (analyses (state g1)) = 1" "liveClient g1 = liveClient g0"
    using save_call [OF refl, of g0 args st] s0
    by (simp_all add: g1_def save_message [OF open0])
  then show ?thesis
    unfolding Let_def g0_def [symmetric] g1_def [symmetric]
    by (simp add: c0 started_client_simps)
qed

section \<open>Gaze classification\<close>

lemma getRatio_degenerate: "lm_x outer = lm_x inner \<Longrightarrow> getRatio inner outer iris = 1 / 2"
  by (simp add: getRatio_def)

lemma eyeRatio_present:
  "i < length lms \<Longrightarrow> j < length lms \<Longrightarrow> k < length lms \<Longrightarrow>
     eyeRatio lms i j k = Inr (getRatio (lms ! i) (lms ! j) (lms ! k))"
  by (simp add: eyeRatio_def landmarkAt_def)

lemma checkGaze_present:
  assumes "473 < length lms"
  shows "checkGaze lms =
           Inr (\<not> (lm_x (lms ! 1) < 0.40 \<or> lm_x (lms ! 1) > 0.60) \<and>
                (getRatio (lms ! 33) (lms ! 133) (lms ! 468) > 0.40 \<and>
                 getRatio (lms ! 33) (lms ! 133) (lms ! 468) < 0.60) \<and>
                (getRatio (lms ! 362) (lms ! 263) (lms ! 473) > 0.40 \<and>
                 getRatio (lms ! 362) (lms ! 263) (lms ! 473) < 0.60))"
  using assms by (simp add: checkGaze_def landmarkAt_def eyeRatio_present)

text \<open>
  C10. With the landmarks it reads in place, \<^verbatim>\<open>checkGaze\<close> returns a boolean. An eye
  whose inner and outer corners share their horizontal coordinate gets the ratio 0.5,
  wherever the iris is, and 0.5 lies in the centred band: with the nose in its band and
  the right eye degenerate the answer is the left eye's test alone, likewise with the
  roles exchanged, and with both eyes degenerate the answer is true.
\<close>

theorem checkGaze_degenerate_eye:
  assumes "473 < length lms"
  shows "(\<exists>b. checkGaze lms = Inr b) \<and>
         (lm_x (lms ! 133) = lm_x (lms ! 33) \<longrightarrow>
            getRatio (lms ! 33) (lms ! 133) (lms ! 468) = 1 / 2 \<and>
            checkGaze lms =
              Inr (0.40 \<le> lm_x (lms ! 1) \<and> lm_x (lms ! 1) \<le> 0.60 \<and>
                   getRatio (lms ! 362) (lms ! 263) (lms ! 473) > 0.40 \<and>
                   getRatio (lms ! 362) (lms ! 263) (lms ! 473) < 0.60)) \<and>
         (lm_x (lms ! 263) = lm_x (lms ! 362) \<longrightarrow>
            getRatio (lms ! 362) (lms ! 263) (lms ! 473) = 1 / 2 \<and>
            checkGaze lms =
              Inr (0.40 \<le> lm_x (lms ! 1) \<and> lm_x (lms ! 1) \<le> 0.60 \<and>
                   getRatio (lms ! 33) (lms ! 133) (lms ! 468) > 0.40 \<and>
                   getRatio (lms ! 33) (lms ! 133) (lms ! 468) < 0.60)) \<and>
         (lm_x (lms ! 133) = lm_x (lms ! 33) \<and> lm_x (lms ! 263) = lm_x (lms ! 362) \<longrightarrow>
            checkGaze lms = Inr (0.40 \<le> lm_x (lms ! 1) \<and> lm_x (lms ! 1) \<le> 0.60))"
  using checkGaze_present [OF assms]
  by (auto simp: getRatio_degenerate)

lemma centred_simps: "length centred = 478" "i < 478 \<Longrightarrow> lm_x (centred ! i) = 1 / 2"
  by (simp_all add: centred_def)

theorem checkGaze_degenerate_eye_witness:
  "473 < length centred \<and>
   lm_x (centred ! 133) = lm_x (centred ! 33) \<and> lm_x (centred ! 263) = lm_x (centred ! 362) \<and>
   getRatio (centred ! 33) (centred ! 133) (centred ! 468) = 1 / 2 \<and>
   checkGaze centred = Inr True"
proof -
  have len: "473 < length centred" by (simp add: centred_simps)
  from checkGaze_degenerate_eye [OF len] show ?thesis
    by (simp add: centred_simps)
qed


section \<open>Eye contact\<close>

lemma stated_eyeContact_score: "stated_eyeContact h = eyeContactScore h"
  by (simp add: stated_eyeContact_def eyeContactScore_def THRESHOLD_def Let_def)

lemma pushGaze_length: "length h \<le> 20 \<Longrightarrow> length (pushGaze h b) \<le> 20"
  by (simp add: pushGaze_def Let_def)

lemma onFaceResults_face:
  assumes "checkGaze lms = Inr b"
  shows "onFaceResults s (Some lms) =
           Inr (s\<lparr>gazeHistory := pushGaze (gazeHistory s) b,
                  currentMetrics := (currentMetrics s)\<lparr>
                    eyeContact := of_int (Math_round (eyeContactScore (pushGaze (gazeHistory s) b))),
                    confidence := adaptiveConfidence ((currentMetrics s)\<lparr>
                      eyeContact := of_int (Math_round (eyeContactScore (pushGaze (gazeHistory s) b)))\<rparr>)\<rparr>\<rparr>)"
  using assms by (simp add: onFaceResults_def Let_def)

lemma half_looking_score:
  assumes "length h = 20" "length (filter id h) = 10"
  shows "Math_round (stated_eyeContact h) = 25"
  using assms by (simp add: stated_eyeContact_def Math_round_def Let_def)

text \<open>
  C8, as the code has it. After a frame with a face the gaze history is the old one with
  the new classification appended, cut to its last 20 entries, and \<open>eyeContact\<close> is the
  stated value of that history rounded to the nearest integer; a history of 20 frames of
  which 10 look gives 25.
\<close>

theorem eye_contact_rounded:
  assumes "checkGaze lms = Inr b" and "onFaceResults s (Some lms) = Inr s'"
  shows "gazeHistory s' = pushGaze (gazeHistory s) b \<and>
         eyeContact (currentMetrics s') = of_int (Math_round (stated_eyeContact (gazeHistory s'))) \<and>
         (length (gazeHistory s') = 20 \<and> length (filter id (gazeHistory s')) = 10 \<longrightarrow>
            eyeContact (currentMetrics s') = 25)"
proof -
  from assms onFaceResults_face [OF assms(1), of s]
  have h: "gazeHistory s' = pushGaze (gazeHistory s) b"
    and e: "eyeContact (currentMetrics s') = of_int (Math_round (stated_eyeContact (gazeHistory s')))"
    by (auto simp: stated_eyeContact_score)
  from e half_looking_score [of "gazeHistory s'"]
  have "length (gazeHistory s') = 20 \<and> length (filter id (gazeHistory s')) = 10 \<longrightarrow>
            eyeContact (currentMetrics s') = 25"
    by simp
  with h e show ?thesis by simp
qed

lemma centred_looking: "checkGaze centred = Inr True"
  using checkGaze_present [of centred] by (simp add: centred_simps getRatio_def)

lemma turnedAway_not_looking: "checkGaze turnedAway = Inr False"
  by (simp add: checkGaze_def landmarkAt_def turnedAway_def)

lemma pushGaze_watched:
  "away + looking = 19 \<Longrightarrow>
     pushGaze (gazeHistory (watched away looking)) True = replicate away False @ replicate (Suc looking) True"
  "away + looking = 19 \<Longrightarrow>
     pushGaze (gazeHistory (watched away looking)) False = replicate away False @ replicate looking True @ [False]"
  by (simp_all add: pushGaze_def watched_def Let_def replicate_append_same)

theorem eye_contact_rounded_witness:
  "checkGaze centred = Inr True \<and>
   length (gazeHistory (projr (onFaceResults (watched 10 9) (Some centred)))) = 20 \<and>
   length (filter id (gazeHistory (projr (onFaceResults (watched 10 9) (Some centred))))) = 10 \<and>
   eyeContact (currentMetrics (projr (onFaceResults (watched 10 9) (Some centred)))) = 25"
proof -
  have r: "onFaceResults (watched 10 9) (Some centred) =
             Inr (projr (onFaceResults (watched 10 9) (Some centred)))"
    by (simp add: onFaceResults_face [OF centred_looking])
  let ?s = "projr (onFaceResults (watched 10 9) (Some centred))"
  note inst = eye_contact_rounded [OF centred_looking r]
  from inst have "gazeHistory ?s = pushGaze (gazeHistory (watched 10 9)) True" by blast
  then have h: "gazeHistory ?s = replicate 10 False @ replicate 10 True"
    by (simp add: pushGaze_watched)
  then have len: "length (gazeHistory ?s) = 20" "length (filter id (gazeHistory ?s)) = 10"
    by simp_all
  with inst have "eyeContact (currentMetrics ?s) = 25" by blast
  with len centred_looking show ?thesis by simp
qed

text \<open>
  Against C8 as stated: with 7 looking frames among 20 the stated value is 12.25, and
  the service stores 12.
\<close>

theorem eye_contact_not_the_plain_formula:
  "checkGaze turnedAway = Inr False \<and>
   length (gazeHistory (projr (onFaceResults (watched 12 7) (Some turnedAway)))) = 20 \<and>
   length (filter id (gazeHistory (projr (onFaceResults (watched 12 7) (Some turnedAway))))) = 7 \<and>
   stated_eyeContact (gazeHistory (projr (onFaceResults (watched 12 7) (Some turnedAway)))) = 49 / 4 \<and>
   eyeContact (currentMetrics (projr (onFaceResults (watched 12 7) (Some turnedAway)))) = 12 \<and>
   eyeContact (currentMetrics (projr (onFaceResults (watched 12 7) (Some turnedAway)))) \<noteq>
     stated_eyeContact (gazeHistory (projr (onFaceResults (watched 12 7) (Some turnedAway))))"
  by (simp add: onFaceResults_face [OF turnedAway_not_looking] turnedAway_not_looking
      pushGaze_watched stated_eyeContact_def eyeContactScore_def THRESHOLD_def Math_round_def
      Let_def)

section \<open>Speech rate and pause ratio\<close>

lemma calculateAudioMetrics_fields:
  "speechHistory (calculateAudioMetrics s now) = speechHistory s"
  "lastSpeechTimestamp (calculateAudioMetrics s now) = lastSpeechTimestamp s"
  "isRunning (calculateAudioMetrics s now) = isRunning s"
  "analyser (calculateAudioMetrics s now) = analyser s"
  by (simp_all add: calculateAudioMetrics_def Let_def)

lemma calculateAudioMetrics_forced:
  "SILENCE_TIMEOUT \<le> now - lastSpeechTimestamp s \<Longrightarrow>
     speechRate (currentMetrics (calculateAudioMetrics s now)) = 0 \<and>
     pauseRatio (currentMetrics (calculateAudioMetrics s now)) = 100"
  by (simp add: calculateAudioMetrics_def Let_def)

lemma calculateAudioMetrics_window:
  assumes "now - lastSpeechTimestamp s < SILENCE_TIMEOUT" "speechHistory s \<noteq> []"
  shows "speechRate (currentMetrics (calculateAudioMetrics s now)) =
           of_int (Math_round (150 * real (length (filter snd (speechHistory s))) /
                                 real (length (speechHistory s))))"
    and "pauseRatio (currentMetrics (calculateAudioMetrics s now)) =
           toFixed1 (stated_pauseRatio (speechHistory s))"
  using assms
  by (simp_all add: calculateAudioMetrics_def Let_def stated_pauseRatio_def field_simps)

lemma processAudioLoop_running:
  assumes "isRunning s" "analyser s"
  shows "speechHistory (processAudioLoop s d now now') =
           dropWhile (\<lambda>e. now - fst e > WINDOW_MS) (speechHistory s @ [(now, loud d)])"
    and "lastSpeechTimestamp (processAudioLoop s d now now') =
           (if loud d then now else lastSpeechTimestamp s)"
    and "isRunning (processAudioLoop s d now now')"
    and "analyser (processAudioLoop s d now now')"
  using assms
  by (simp_all add: processAudioLoop_def Let_def calculateAudioMetrics_fields loud_def)

lemma processAudioLoop_metrics:
  assumes "isRunning s" "analyser s"
  shows "\<exists>u. processAudioLoop s d now now' = calculateAudioMetrics u now' \<and>
             speechHistory u = speechHistory (processAudioLoop s d now now') \<and>
             lastSpeechTimestamp u = lastSpeechTimestamp (processAudioLoop s d now now')"
proof -
  define u where "u =
    (let rms = byte_rms d;
         s1 = s\<lparr>currentMetrics := (currentMetrics s)\<lparr>audioLevel := Some (audio_level rms)\<rparr>\<rparr>;
         s2 = (if rms > 5 then
                 (let pushed = rmsValues s1 @ [rms]
                  in s1\<lparr>rmsValues := (if length pushed > 5 then tl pushed else pushed)\<rparr>)
               else s1);
         isSpeech = (rms > SILENCE_THRESHOLD);
         s3 = (if isSpeech then s2\<lparr>lastSpeechTimestamp := now\<rparr> else s2)
     in s3\<lparr>speechHistory :=
           dropWhile (\<lambda>e. now - fst e > WINDOW_MS) (speechHistory s3 @ [(now, isSpeech)])\<rparr>)"
  from assms have "processAudioLoop s d now now' = calculateAudioMetrics u now'"
    by (simp add: processAudioLoop_def u_def Let_def)
  then show ?thesis
    by (auto simp: calculateAudioMetrics_fields)
qed

lemma tick_forced:
  assumes "isRunning s" "analyser s"
    and "SILENCE_TIMEOUT \<le> now' - lastSpeechTimestamp (processAudioLoop s d now now')"
  shows "speechRate (currentMetrics (processAudioLoop s d now now')) = 0 \<and>
         pauseRatio (currentMetrics (processAudioLoop s d now now')) = 100"
proof -
  from processAudioLoop_metrics [OF assms(1,2), of d now now']
  obtain u where u: "processAudioLoop s d now now' = calculateAudioMetrics u now'"
    "lastSpeechTimestamp u = lastSpeechTimestamp (processAudioLoop s d now now')" by blast
  with assms(3) calculateAudioMetrics_forced [of now' u] show ?thesis by simp
qed

lemma tick_window:
  assumes "isRunning s" "analyser s"
    and "now' - lastSpeechTimestamp (processAudioLoop s d now now') < SILENCE_TIMEOUT"
    and "speechHistory (processAudioLoop s d now now') \<noteq> []"
  shows "speechRate (currentMetrics (processAudioLoop s d now now')) =
           of_int (Math_round (150 * real (length (filter snd (speechHistory (processAudioLoop s d now now')))) /
                                 real (length (speechHistory (processAudioLoop s d now now')))))"
    and "pauseRatio (currentMetrics (processAudioLoop s d now now')) =
           toFixed1 (stated_pauseRatio (speechHistory (processAudioLoop s d now now')))"
proof -
  from processAudioLoop_metrics [OF assms(1,2), of d now now']
  obtain u where u: "processAudioLoop s d now now' = calculateAudioMetrics u now'"
    "speechHistory u = speechHistory (processAudioLoop s d now now')"
    "lastSpeechTimestamp u = lastSpeechTimestamp (processAudioLoop s d now now')" by blast
  from assms(3,4) u have pre: "now' - lastSpeechTimestamp u < SILENCE_TIMEOUT" "speechHistory u \<noteq> []"
    by simp_all
  from calculateAudioMetrics_window [OF pre] u
  show "speechRate (currentMetrics (processAudioLoop s d now now')) =
           of_int (Math_round (150 * real (length (filter snd (speechHistory (processAudioLoop s d now now')))) /
                                 real (length (speechHistory (processAudioLoop s d now now')))))"
    and "pauseRatio (currentMetrics (processAudioLoop s d now now')) =
           toFixed1 (stated_pauseRatio (speechHistory (processAudioLoop s d now now')))"
    by simp_all
qed


lemma audioRun_Cons:
  "audioRun s (ev # evs) = audioRun (processAudioLoop s (fst ev) (fst (snd ev)) (snd (snd ev))) evs"
  by (simp add: audioRun_def)

lemma audioRun_snoc:
  "audioRun s (evs @ [ev]) = processAudioLoop (audioRun s evs) (fst ev) (fst (snd ev)) (snd (snd ev))"
  by (simp add: audioRun_def)

lemma quiet_run:
  "isRunning s \<Longrightarrow> analyser s \<Longrightarrow> list_all quietTick qs \<Longrightarrow>
     isRunning (audioRun s qs) \<and> analyser (audioRun s qs) \<and>
     lastSpeechTimestamp (audioRun s qs) = lastSpeechTimestamp s"
proof (induction qs arbitrary: s)
  case Nil
  then show ?case by (simp add: audioRun_def)
next
  case (Cons ev qs)
  let ?s1 = "processAudioLoop s (fst ev) (fst (snd ev)) (snd (snd ev))"
  from Cons.prems have q0: "quietTick ev" and q2: "list_all quietTick qs" by simp_all
  from q0 have q1: "\<not> loud (fst ev)" by (simp add: quietTick_def)
  note q = q1 q2
  from processAudioLoop_running [OF Cons.prems(1,2), of "fst ev" "fst (snd ev)" "snd (snd ev)"] q
  have "isRunning ?s1" "analyser ?s1" "lastSpeechTimestamp ?s1 = lastSpeechTimestamp s"
    by simp_all
  with Cons.IH [of ?s1] q show ?case by (simp add: audioRun_Cons)
qed

lemma window_run:
  "isRunning s \<Longrightarrow> analyser s \<Longrightarrow> speechHistory s = (t0, b) # rest \<Longrightarrow>
   list_all quietTick qs \<Longrightarrow> list_all (withinHangover t0) qs \<Longrightarrow>
     speechHistory (audioRun s qs) = speechHistory s @ map (\<lambda>ev. (fst (snd ev), False)) qs"
proof (induction qs arbitrary: s rest)
  case Nil
  then show ?case by (simp add: audioRun_def)
next
  case (Cons ev qs)
  let ?s1 = "processAudioLoop s (fst ev) (fst (snd ev)) (snd (snd ev))"
  from Cons.prems have q0: "quietTick ev" and q2: "list_all quietTick qs"
    and w0: "withinHangover t0 ev" and w2: "list_all (withinHangover t0) qs" by simp_all
  from q0 have q1: "\<not> loud (fst ev)" by (simp add: quietTick_def)
  from w0 have w1: "fst (snd ev) - t0 < 500"
    by (simp add: withinHangover_def SILENCE_TIMEOUT_def)
  note q = q1 q2 and w = w1 w2
  from processAudioLoop_running [OF Cons.prems(1,2), of "fst ev" "fst (snd ev)" "snd (snd ev)"] q w
    Cons.prems(3)
  have s1: "isRunning ?s1" "analyser ?s1"
    "speechHistory ?s1 = (t0, b) # rest @ [(fst (snd ev), False)]"
    by (simp_all add: WINDOW_MS_def)
  from Cons.IH [OF s1(1,2) s1(3) q(2) w(2)] s1(3) Cons.prems(3)
  show ?case by (simp add: audioRun_Cons)
qed

lemma round_pace: "0 < n \<Longrightarrow> n \<le> 300 \<Longrightarrow> 1 \<le> Math_round (150 / real n)"
proof -
  assume n: "0 < n" "n \<le> 300"
  then have "real n \<le> 300" by simp
  with n have "1 / 2 \<le> 150 / real n" by (simp add: field_simps)
  then show ?thesis by (simp add: Math_round_def le_floor_iff)
qed

lemma pause_below_100:
  assumes "0 < n" "n \<le> 300"
  shows "toFixed1 ((1 - 1 / real n) * 100) < 100"
proof -
  from assms have r: "1 \<le> real n" "real n \<le> 300" by simp_all
  then have nonneg: "0 \<le> (1 - 1 / real n) * 100" by (simp add: field_simps)
  from r have "1 / 300 \<le> 1 / real n" by (simp add: field_simps)
  then have "(1 - 1 / real n) * 100 * 10 + 1 / 2 < 1000" by simp
  then have "\<lfloor>(1 - 1 / real n) * 100 * 10 + 1 / 2\<rfloor> < 1000" by (simp add: floor_less_iff)
  then have "real_of_int \<lfloor>(1 - 1 / real n) * 100 * 10 + 1 / 2\<rfloor> < 1000" by simp
  with nonneg show ?thesis by (simp add: toFixed1_def)
qed

lemma hangover_after:
  assumes run: "isRunning s" "analyser s"
    and first: "loud d0"
    and quiet: "list_all quietTick qs"
    and late: "SILENCE_TIMEOUT \<le> snd (snd (last ((d0, t0, t0') # qs))) - t0"
  shows "speechRate (currentMetrics (audioRun s ((d0, t0, t0') # qs))) = 0 \<and>
         pauseRatio (currentMetrics (audioRun s ((d0, t0, t0') # qs))) = 100"
proof -
  let ?s1 = "processAudioLoop s d0 t0 t0'"
  from processAudioLoop_running [OF run, of d0 t0 t0'] first
  have s1: "isRunning ?s1" "analyser ?s1" "lastSpeechTimestamp ?s1 = t0" by simp_all
  show ?thesis
  proof (cases qs rule: rev_cases)
    case Nil
    with late s1 tick_forced [OF run, of t0' d0 t0] show ?thesis
      by (simp add: audioRun_def)
  next
    case (snoc earlier ev)
    let ?p = "audioRun ?s1 earlier"
    from quiet snoc have q1: "list_all quietTick earlier" and q0: "quietTick ev" by simp_all
    from q0 have q2: "\<not> loud (fst ev)" by (simp add: quietTick_def)
    note q = q1 q2
    from quiet_run [OF s1(1,2) q(1)] s1(3)
    have p: "isRunning ?p" "analyser ?p" "lastSpeechTimestamp ?p = t0" by simp_all
    from processAudioLoop_running(2) [OF p(1,2), of "fst ev" "fst (snd ev)" "snd (snd ev)"] q(2) p(3)
    have "lastSpeechTimestamp (processAudioLoop ?p (fst ev) (fst (snd ev)) (snd (snd ev))) = t0"
      by simp
    with late snoc tick_forced [OF p(1,2), of "snd (snd ev)" "fst ev" "fst (snd ev)"]
    show ?thesis by (simp add: audioRun_Cons audioRun_snoc)
  qed
qed

lemma hangover_before:
  assumes run: "isRunning s" "analyser s"
    and fresh: "speechHistory s = []"
    and first: "loud d0"
    and quiet: "list_all quietTick qs"
    and early: "list_all (withinHangover t0) ((d0, t0, t0') # qs)"
  shows "speechHistory (audioRun s ((d0, t0, t0') # qs)) =
           (t0, True) # map (\<lambda>ev. (fst (snd ev), False)) qs"
    and "speechRate (currentMetrics (audioRun s ((d0, t0, t0') # qs))) =
           of_int (Math_round (150 / real (Suc (length qs))))"
    and "pauseRatio (currentMetrics (audioRun s ((d0, t0, t0') # qs))) =
           toFixed1 (stated_pauseRatio (speechHistory (audioRun s ((d0, t0, t0') # qs))))"
proof -
  let ?s1 = "processAudioLoop s d0 t0 t0'"
  let ?end = "audioRun s ((d0, t0, t0') # qs)"
  from early have e1: "withinHangover t0 (d0, t0, t0')" and eq: "list_all (withinHangover t0) qs"
    by simp_all
  from e1 have e0: "t0' - t0 < SILENCE_TIMEOUT" by (simp add: withinHangover_def)
  from processAudioLoop_running [OF run, of d0 t0 t0'] first fresh
  have s1: "isRunning ?s1" "analyser ?s1" "lastSpeechTimestamp ?s1 = t0"
    "speechHistory ?s1 = (t0, True) # []"
    by (simp_all add: WINDOW_MS_def)
  from window_run [OF s1(1,2) s1(4) quiet eq] s1(4)
  show h: "speechHistory ?end = (t0, True) # map (\<lambda>ev. (fst (snd ev), False)) qs"
    by (simp add: audioRun_Cons)
  have f: "length (filter snd (speechHistory ?end)) = 1" "length (speechHistory ?end) = Suc (length qs)"
    by (simp_all add: h filter_map comp_def)
  have "speechRate (currentMetrics ?end) =
          of_int (Math_round (150 * real (length (filter snd (speechHistory ?end))) /
                                real (length (speechHistory ?end)))) \<and>
        pauseRatio (currentMetrics ?end) = toFixed1 (stated_pauseRatio (speechHistory ?end))"
  proof (cases qs rule: rev_cases)
    case Nil
    with e0 s1 tick_window [OF run, of t0' d0 t0] show ?thesis
      by (simp add: audioRun_def)
  next
    case (snoc earlier ev)
    let ?p = "audioRun ?s1 earlier"
    from quiet snoc have q1: "list_all quietTick earlier" and q0: "quietTick ev" by simp_all
    from q0 have q2: "\<not> loud (fst ev)" by (simp add: quietTick_def)
    note q = q1 q2
    from eq snoc have "withinHangover t0 ev" by simp
    then have w: "snd (snd ev) - t0 < SILENCE_TIMEOUT" by (simp add: withinHangover_def)
    from quiet_run [OF s1(1,2) q(1)] s1(3)
    have p: "isRunning ?p" "analyser ?p" "lastSpeechTimestamp ?p = t0" by simp_all
    have e: "?end = processAudioLoop ?p (fst ev) (fst (snd ev)) (snd (snd ev))"
      using snoc by (simp add: audioRun_Cons audioRun_snoc)
    from processAudioLoop_running(2) [OF p(1,2), of "fst ev" "fst (snd ev)" "snd (snd ev)"] q(2) p(3)
    have l: "lastSpeechTimestamp (processAudioLoop ?p (fst ev) (fst (snd ev)) (snd (snd ev))) = t0"
      by simp
    from h e have ne: "speechHistory (processAudioLoop ?p (fst ev) (fst (snd ev)) (snd (snd ev))) \<noteq> []"
      by simp
    from tick_window [OF p(1,2) _ ne] l w e show ?thesis by simp
  qed
  with f show "speechRate (currentMetrics ?end) = of_int (Math_round (150 / real (Suc (length qs))))"
    and "pauseRatio (currentMetrics ?end) = toFixed1 (stated_pauseRatio (speechHistory ?end))"
    by simp_all
qed

lemma stated_pause_one_speech:
  "stated_pauseRatio ((t0, True) # map (\<lambda>ev. (fst (snd ev), False)) qs) =
     (1 - 1 / real (Suc (length qs))) * 100"
  by (simp add: stated_pauseRatio_def filter_map comp_def)


text \<open>
  C7, as the code has it. In a running service with an empty window, a loud tick at
  \<open>t0\<close> is followed by quiet ticks only. If at the last tick the silence timeout of
  500 ms has elapsed since \<open>t0\<close>, \<open>speechRate\<close> is 0 and \<open>pauseRatio\<close> is 100. If
  every tick so far came before that, the loud tick is still in the window: with \<open>n\<close>
  ticks so far, \<open>speechRate\<close> is 150 / n rounded to an integer and \<open>pauseRatio\<close> is the
  stated (1 - 1 / n) * 100 rounded to one decimal, so with at most 300 ticks the rate is
  at least 1 and the ratio below 100. And at every tick of a running service: the time of
  last speech is this tick's own when it is loud and the old one otherwise, and once at
  least 500 ms lie between it and the clock, the two values are 0 and 100.
\<close>

theorem vad_hangover:
  assumes "isRunning s" and "analyser s" and "speechHistory s = []"
    and "loud d0" and "list_all quietTick qs"
  shows "(SILENCE_TIMEOUT \<le> snd (snd (last ((d0, t0, t0') # qs))) - t0 \<longrightarrow>
            speechRate (currentMetrics (audioRun s ((d0, t0, t0') # qs))) = 0 \<and>
            pauseRatio (currentMetrics (audioRun s ((d0, t0, t0') # qs))) = 100) \<and>
         (list_all (withinHangover t0) ((d0, t0, t0') # qs) \<longrightarrow>
            speechRate (currentMetrics (audioRun s ((d0, t0, t0') # qs))) =
              of_int (Math_round (150 / real (Suc (length qs)))) \<and>
            pauseRatio (currentMetrics (audioRun s ((d0, t0, t0') # qs))) =
              toFixed1 (stated_pauseRatio (speechHistory (audioRun s ((d0, t0, t0') # qs)))) \<and>
            stated_pauseRatio (speechHistory (audioRun s ((d0, t0, t0') # qs))) =
              (1 - 1 / real (Suc (length qs))) * 100 \<and>
            (length qs < 300 \<longrightarrow>
               1 \<le> speechRate (currentMetrics (audioRun s ((d0, t0, t0') # qs))) \<and>
               pauseRatio (currentMetrics (audioRun s ((d0, t0, t0') # qs))) < 100)) \<and>
         (isRunning u \<and> analyser u \<longrightarrow>
            lastSpeechTimestamp (processAudioLoop u d now now') =
              (if loud d then now else lastSpeechTimestamp u) \<and>
            (SILENCE_TIMEOUT \<le> now' - lastSpeechTimestamp (processAudioLoop u d now now') \<longrightarrow>
               speechRate (currentMetrics (processAudioLoop u d now now')) = 0 \<and>
               pauseRatio (currentMetrics (processAudioLoop u d now now')) = 100))"
proof (intro conjI impI)
  let ?end = "audioRun s ((d0, t0, t0') # qs)"
  {
    assume "SILENCE_TIMEOUT \<le> snd (snd (last ((d0, t0, t0') # qs))) - t0"
    from hangover_after [OF assms(1,2,4,5) this]
    show "speechRate (currentMetrics ?end) = 0" and "pauseRatio (currentMetrics ?end) = 100"
      by simp_all
  }
  {
    assume early: "list_all (withinHangover t0) ((d0, t0, t0') # qs)"
    note before = hangover_before [OF assms early]
    from before(2) show rate: "speechRate (currentMetrics ?end) =
        of_int (Math_round (150 / real (Suc (length qs))))" .
    from before(3) show ratio: "pauseRatio (currentMetrics ?end) =
        toFixed1 (stated_pauseRatio (speechHistory ?end))" .
    from before(1) show stated: "stated_pauseRatio (speechHistory ?end) =
        (1 - 1 / real (Suc (length qs))) * 100"
      by (simp add: stated_pause_one_speech)
    {
      assume few: "length qs < 300"
      from few round_pace [of "Suc (length qs)"] rate
      show "1 \<le> speechRate (currentMetrics ?end)" by simp
      from few pause_below_100 [of "Suc (length qs)"] ratio stated
      show "pauseRatio (currentMetrics ?end) < 100" by simp
    }
  }
  {
    assume u: "isRunning u \<and> analyser u"
    then have r: "isRunning u" "analyser u" by simp_all
    from processAudioLoop_running(2) [OF r]
    show "lastSpeechTimestamp (processAudioLoop u d now now') =
            (if loud d then now else lastSpeechTimestamp u)" .
    {
      assume "SILENCE_TIMEOUT \<le> now' - lastSpeechTimestamp (processAudioLoop u d now now')"
      from tick_forced [OF r this]
      show "speechRate (currentMetrics (processAudioLoop u d now now')) = 0"
        and "pauseRatio (currentMetrics (processAudioLoop u d now now')) = 100" by simp_all
    }
  }
qed

lemma byte_rms_single: "byte_rms [b] = real b"
  by (simp add: byte_rms_def real_sqrt_abs2)

lemma sample_ticks:
  "loud [20]" "quietTick ([0], t, t')"
  "isRunning (initAudio newService)" "analyser (initAudio newService)"
  "speechHistory (initAudio newService) = []"
  by (simp_all add: loud_def quietTick_def byte_rms_single SILENCE_THRESHOLD_def
      initAudio_def newService_def)

theorem vad_hangover_witness:
  "isRunning (initAudio newService) \<and> analyser (initAudio newService) \<and>
   speechHistory (initAudio newService) = [] \<and> loud [20] \<and>
   list_all quietTick [([0], 16, 16), ([0], 33, 33)] \<and>
   list_all (withinHangover 0) [([20], 0, 0), ([0], 16, 16), ([0], 33, 33)] \<and>
   speechRate (currentMetrics (audioRun (initAudio newService)
     [([20], 0, 0), ([0], 16, 16), ([0], 33, 33)])) = 50 \<and>
   pauseRatio (currentMetrics (audioRun (initAudio newService)
     [([20], 0, 0), ([0], 16, 16), ([0], 33, 33)])) = 667 / 10 \<and>
   list_all quietTick [([0], 16, 16), ([0], 500, 500)] \<and>
   SILENCE_TIMEOUT \<le> snd (snd (last [([20], 0, 0), ([0], 16, 16), ([0], 500, 500)])) - 0 \<and>
   speechRate (currentMetrics (audioRun (initAudio newService)
     [([20], 0, 0), ([0], 16, 16), ([0], 500, 500)])) = 0 \<and>
   pauseRatio (currentMetrics (audioRun (initAudio newService)
     [([20], 0, 0), ([0], 16, 16), ([0], 500, 500)])) = 100 \<and>
   lastSpeechTimestamp (processAudioLoop (initAudio newService) [0] 600 600) = 0 \<and>
   speechRate (currentMetrics (processAudioLoop (initAudio newService) [0] 600 600)) = 0"
proof -
  have q1: "list_all quietTick [([0], 16, 16), ([0], 33, 33)]"
    and q2: "list_all quietTick [([0], 16, 16), ([0], 500, 500)]"
    by (simp_all add: sample_ticks)
  have w: "list_all (withinHangover 0) [([20], 0, 0), ([0], 16, 16), ([0], 33, 33)]"
    by (simp add: withinHangover_def SILENCE_TIMEOUT_def)
  have l: "SILENCE_TIMEOUT \<le> snd (snd (last [([20], 0, 0), ([0], 16, 16), ([0], 500, 500)])) - 0"
    by (simp add: SILENCE_TIMEOUT_def)
  have nl: "\<not> loud [0]" using sample_ticks(2) [of 0 0] by (simp add: quietTick_def)
  note a = sample_ticks(3,4,5,1)
  have l0: "lastSpeechTimestamp (initAudio newService) = 0"
    by (simp add: initAudio_def newService_def)
  note inst = vad_hangover [OF a q1, of 0 0 "initAudio newService" "[0]" 600 600]
  let ?run = "audioRun (initAudio newService) [([20], 0, 0), ([0], 16, 16), ([0], 33, 33)]"
  from inst w
  have r: "speechRate (currentMetrics ?run) =
             of_int (Math_round (150 / real (Suc (length [([0::nat], 16::int, 16::int), ([0], 33, 33)]))))"
    and p: "pauseRatio (currentMetrics ?run) = toFixed1 (stated_pauseRatio (speechHistory ?run))"
    and st: "stated_pauseRatio (speechHistory ?run) =
             (1 - 1 / real (Suc (length [([0::nat], 16::int, 16::int), ([0], 33, 33)]))) * 100"
    by blast+
  have "speechRate (currentMetrics ?run) = 50"
    unfolding r by (simp add: Math_round_def)
  moreover have "pauseRatio (currentMetrics ?run) = 667 / 10"
    unfolding p st by (simp add: toFixed1_def)
  moreover from inst nl l0 a
  have "lastSpeechTimestamp (processAudioLoop (initAudio newService) [0] 600 600) = 0"
    by simp
  moreover from this inst a
  have "speechRate (currentMetrics (processAudioLoop (initAudio newService) [0] 600 600)) = 0"
    by (simp add: SILENCE_TIMEOUT_def)
  moreover from vad_hangover [OF a q2, of 0 0] l
  have "speechRate (currentMetrics (audioRun (initAudio newService)
           [([20], 0, 0), ([0], 16, 16), ([0], 500, 500)])) = 0"
    and "pauseRatio (currentMetrics (audioRun (initAudio newService)
           [([20], 0, 0), ([0], 16, 16), ([0], 500, 500)])) = 100"
    by simp_all
  ultimately show ?thesis using a q1 q2 w l by simp
qed

text \<open>
  Against C7 as stated: a loud tick at 0 and quiet ticks at 16 and 33 ms leave one
  speech tick among three, the service is still speaking (rate 50), the stated pause
  ratio is 200 / 3, and the service stores 66.7. And were 300 quiet ticks to follow the
  loud one within a millisecond, the rate would round to 0 with 499 ms of the timeout
  still to run.
\<close>

theorem window_values_are_rounded:
  "speechRate (currentMetrics (audioRun (initAudio newService)
     [([20], 0, 0), ([0], 16, 16), ([0], 33, 33)])) = 50 \<and>
   stated_pauseRatio (speechHistory (audioRun (initAudio newService)
     [([20], 0, 0), ([0], 16, 16), ([0], 33, 33)])) = 200 / 3 \<and>
   pauseRatio (currentMetrics (audioRun (initAudio newService)
     [([20], 0, 0), ([0], 16, 16), ([0], 33, 33)])) = 667 / 10 \<and>
   pauseRatio (currentMetrics (audioRun (initAudio newService)
     [([20], 0, 0), ([0], 16, 16), ([0], 33, 33)])) \<noteq>
   stated_pauseRatio (speechHistory (audioRun (initAudio newService)
     [([20], 0, 0), ([0], 16, 16), ([0], 33, 33)])) \<and>
   withinHangover 0 ([0], 1, 1) \<and>
   speechRate (currentMetrics (audioRun (initAudio newService)
     (([20], 0, 0) # replicate 300 ([0], 1, 1)))) = 0"
proof -
  have q: "list_all quietTick [([0], 16, 16), ([0], 33, 33)]"
    by (simp add: sample_ticks)
  have w: "list_all (withinHangover 0) [([20], 0, 0), ([0], 16, 16), ([0], 33, 33)]"
    by (simp add: withinHangover_def SILENCE_TIMEOUT_def)
  note before = hangover_before [OF sample_ticks(3,4,5,1) q w]
  from before(1) have st: "stated_pauseRatio (speechHistory (audioRun (initAudio newService)
     [([20], 0, 0), ([0], 16, 16), ([0], 33, 33)])) = 200 / 3"
    by (simp add: stated_pauseRatio_def)
  have w1: "withinHangover 0 ([0], 1, 1)" "withinHangover 0 ([20], 0, 0)"
    by (simp_all add: withinHangover_def SILENCE_TIMEOUT_def)
  have q300: "list_all quietTick (replicate 300 ([0], 1, 1))"
    by (simp add: list_all_iff sample_ticks)
  have w300: "list_all (withinHangover 0) (([20], 0, 0) # replicate 300 ([0], 1, 1))"
    using w1 by (simp add: list_all_iff)
  from hangover_before(2) [OF sample_ticks(3,4,5,1) q300 w300]
  have "speechRate (currentMetrics (audioRun (initAudio newService)
     (([20], 0, 0) # replicate 300 ([0], 1, 1)))) = 0"
    by (simp add: Math_round_def)
  moreover have "speechRate (currentMetrics (audioRun (initAudio newService)
     [([20], 0, 0), ([0], 16, 16), ([0], 33, 33)])) = 50"
    unfolding before(2) by (simp add: Math_round_def)
  moreover have "pauseRatio (currentMetrics (audioRun (initAudio newService)
     [([20], 0, 0), ([0], 16, 16), ([0], 33, 33)])) = 667 / 10"
    unfolding before(3) st by (simp add: toFixed1_def)
  moreover note st w1(1)
  ultimately show ?thesis by simp
qed

section \<open>What an assessment is built from\<close>

lemma str_eq_iff [simp]: "str a = str b \<longleftrightarrow> a = b"
  by (simp add: str_def inj_map_eq_map inj_def)

lemma str_empty [simp]: "str a = [] \<longleftrightarrow> a = []" "[] = str a \<longleftrightarrow> a = []"
  by (auto simp: str_def)

lemma trim_white: "list_all isWhiteSpace s \<Longrightarrow> trim s = []"
  by (auto simp: trim_def list_all_iff dest: set_dropWhileD)

lemma trim_inner:
  "\<not> isWhiteSpace a \<Longrightarrow> \<not> isWhiteSpace b \<Longrightarrow>
   list_all isWhiteSpace before \<Longrightarrow> list_all isWhiteSpace behind \<Longrightarrow>
     trim (before @ a # middle @ b # behind) = a # middle @ [b]"
proof -
  assume a: "\<not> isWhiteSpace a" and b: "\<not> isWhiteSpace b"
    and pre: "list_all isWhiteSpace before" and post: "list_all isWhiteSpace behind"
  from pre a have "dropWhile isWhiteSpace (before @ a # middle @ b # behind) = a # middle @ b # behind"
    by (simp add: list_all_iff dropWhile_append3)
  moreover from post b have "dropWhile isWhiteSpace (rev behind @ b # rev middle @ [a]) =
      b # rev middle @ [a]"
    by (simp add: list_all_iff dropWhile_append3)
  ultimately show ?thesis by (simp add: trim_def)
qed

lemma orElse_present:
  "orElse v d = (if present v then the v else d)"
  by (simp add: orElse_def present_def split: option.split)

lemma realQuestion_priority:
  "realQuestion args shown =
     (if present (full_question_text args) then the (full_question_text args)
      else if shown \<noteq> [] then shown
      else if present (question_topic args) then the (question_topic args)
      else str ''Interview Question'')"
  by (simp add: realQuestion_def orElse_present present_def)

lemma rawUserAnswer_priority:
  "rawUserAnswer args buffer =
     (if trim buffer \<noteq> [] then trim buffer
      else if present (user_answer_summary args) then the (user_answer_summary args)
      else str ''(No audio response detected)'')"
  by (simp add: rawUserAnswer_def orElse_present)

lemma handleAssessment_appends:
  "analyses (state (handleAssessment g args t1 t2)) =
     analyses (state g) @
       [\<lparr> questionId = length (analyses (state g)) + 1,
          questionText = realQuestion args (currentQuestionText (state g)),
          userAnswer = rawUserAnswer args (userTranscriptBuffer g),
          metrics = Snapshot (length (snapshots g)),
          contentScore = scoreOr5 (content_score args),
          deliveryScore = scoreOr5 (delivery_score args),
          feedback = orElse (feedback_arg args) (str ''No feedback provided''),
          strengths = listOrEmpty (strengths_arg args),
          weaknesses = listOrEmpty (areas_for_improvement args) \<rparr>]"
  "snapshots (handleAssessment g args t1 t2) = snapshots g @ [currentMetrics (analysisService g)]"
  by (simp_all add: handleAssessment_def Let_def)

text \<open>
  C6, as the code has it. A \<^verbatim>\<open>save_assessment\<close> call with an arguments object appends
  one assessment. Its question text is the tool-supplied text when present, else the
  question text the state currently shows when that is not empty, else the tool-supplied
  topic when present, else the placeholder. Its answer is the trimmed candidate buffer
  when that is not empty, else the tool-supplied summary when present, else the marker;
  trimming strips every white space and line terminator of the language from both ends,
  the no-break space and the ideographic space among them, and nothing inside. Its
  metrics are an object of their own, not the live one: it reads as the service's
  metrics at the time of the call, and still does after the service has changed and after
  a later assessment. The shown question text follows the agent-question buffer at every
  fragment, and the reset of the two buffers after the call leaves it as it was.
\<close>

theorem assessment_sources:
  "(let g' = handleAssessment g args t1 t2; a = last (analyses (state g'))
    in analyses (state g') = analyses (state g) @ [a] \<and>
       questionText a =
         (if present (full_question_text args) then the (full_question_text args)
          else if currentQuestionText (state g) \<noteq> [] then currentQuestionText (state g)
          else if present (question_topic args) then the (question_topic args)
          else str ''Interview Question'') \<and>
       userAnswer a =
         (if trim (userTranscriptBuffer g) \<noteq> [] then trim (userTranscriptBuffer g)
          else if present (user_answer_summary args) then the (user_answer_summary args)
          else str ''(No audio response detected)'') \<and>
       metrics a \<noteq> LiveMetrics \<and>
       readMetrics g' (metrics a) = Some (currentMetrics (analysisService g)) \<and>
       readMetrics (g'\<lparr>analysisService := svc\<rparr>) (metrics a) =
         Some (currentMetrics (analysisService g)) \<and>
       readMetrics (handleAssessment g' args' t3 t4) (metrics a) =
         Some (currentMetrics (analysisService g))) \<and>
   trim [0xA0, 0x3000, 0x20, 0x0A, 0xFEFF] = [] \<and>
   trim (str '' I led the team. '') = str ''I led the team.'' \<and>
   trim ([0xA0, 0x2003] @ str ''Yes, twice'' @ [0x2028, 0x09]) = str ''Yes, twice'' \<and>
   currentQuestionText (state (onTranscript g txt False)) = aiTextBuffer g @ txt \<and>
   aiTextBuffer (onTranscript g txt False) = aiTextBuffer g @ txt \<and>
   (let g2 = onToolCall g \<lparr> fcName = str ''save_assessment'', fcArgs = Some args, fcStamps = st \<rparr>
    in aiTextBuffer g2 = [] \<and> userTranscriptBuffer g2 = [] \<and>
       currentQuestionText (state g2) = currentQuestionText (state g))"
proof -
  let ?g' = "handleAssessment g args t1 t2"
  let ?a = "last (analyses (state ?g'))"
  note app = handleAssessment_appends [of g args t1 t2]
  have a: "analyses (state ?g') = analyses (state g) @ [?a]"
    by (simp add: app)
  have q: "questionText ?a =
         (if present (full_question_text args) then the (full_question_text args)
          else if currentQuestionText (state g) \<noteq> [] then currentQuestionText (state g)
          else if present (question_topic args) then the (question_topic args)
          else str ''Interview Question'')"
    by (simp add: app realQuestion_priority)
  have u: "userAnswer ?a =
         (if trim (userTranscriptBuffer g) \<noteq> [] then trim (userTranscriptBuffer g)
          else if present (user_answer_summary args) then the (user_answer_summary args)
          else str ''(No audio response detected)'')"
    by (simp add: app rawUserAnswer_priority)
  have m: "metrics ?a = Snapshot (length (snapshots g))"
    by (simp add: app)
  have r1: "readMetrics ?g' (metrics ?a) = Some (currentMetrics (analysisService g))"
    by (simp add: m readMetrics_def app)
  have r2: "readMetrics (?g'\<lparr>analysisService := svc\<rparr>) (metrics ?a) =
         Some (currentMetrics (analysisService g))"
    by (simp add: m readMetrics_def app)
  have r3: "readMetrics (handleAssessment ?g' args' t3 t4) (metrics ?a) =
         Some (currentMetrics (analysisService g))"
    by (simp add: m readMetrics_def handleAssessment_appends nth_append)
  have w1: "trim [0xA0, 0x3000, 0x20, 0x0A, 0xFEFF] = []"
    by (rule trim_white) (simp add: isWhiteSpace_def)
  have w2: "trim (str '' I led the team. '') = str ''I led the team.''"
    by (simp add: trim_def str_def isWhiteSpace_def)
  have w3: "trim ([0xA0, 0x2003] @ str ''Yes, twice'' @ [0x2028, 0x09]) = str ''Yes, twice''"
    by (simp add: trim_def str_def isWhiteSpace_def)
  have t: "currentQuestionText (state (onTranscript g txt False)) = aiTextBuffer g @ txt"
    "aiTextBuffer (onTranscript g txt False) = aiTextBuffer g @ txt"
    by (simp_all add: onTranscript_def Let_def)
  have c: "aiTextBuffer (onToolCall g \<lparr> fcName = str ''save_assessment'', fcArgs = Some args, fcStamps = st \<rparr>) = []"
    "userTranscriptBuffer (onToolCall g \<lparr> fcName = str ''save_assessment'', fcArgs = Some args, fcStamps = st \<rparr>) = []"
    "currentQuestionText (state (onToolCall g \<lparr> fcName = str ''save_assessment'', fcArgs = Some args, fcStamps = st \<rparr>)) =
       currentQuestionText (state g)"
    by (simp_all add: onToolCall_def handleAssessment_def Let_def)
  from a q u m r1 r2 r3 t c w1 w2 w3 show ?thesis
    unfolding Let_def by simp
qed

text \<open>What a message of agent text, and a call, do to an open session.\<close>

lemma agent_text:
  assumes "isSessionOpen (liveClient g)" "txt \<noteq> []"
  shows "safeHandleMessage g (agentSays txt) = onTranscript g txt False"
  using assms by (simp add: safeHandleMessage_def agentSays_def handlePart_def)

lemma onTranscript_fields:
  "liveClient (onTranscript g txt False) = liveClient g"
  "analyses (state (onTranscript g txt False)) = analyses (state g)"
  "currentQuestionIndex (state (onTranscript g txt False)) = currentQuestionIndex (state g)"
  "totalQuestions (state (onTranscript g txt False)) = totalQuestions (state g)"
  "currentQuestionText (state (onTranscript g txt False)) = aiTextBuffer g @ txt"
  by (simp_all add: onTranscript_def Let_def)

lemma save_call_texts:
  "aiTextBuffer (onToolCall g \<lparr> fcName = str ''save_assessment'', fcArgs = Some args, fcStamps = st \<rparr>) = []"
  "currentQuestionText (state (onToolCall g \<lparr> fcName = str ''save_assessment'', fcArgs = Some args, fcStamps = st \<rparr>)) =
     currentQuestionText (state g)"
  "analyses (state (onToolCall g \<lparr> fcName = str ''save_assessment'', fcArgs = Some args, fcStamps = st \<rparr>)) =
     analyses (state (handleAssessment g args (fst st) (snd st)))"
  by (simp_all add: onToolCall_def handleAssessment_def Let_def)

lemma started_session_buffers:
  "aiTextBuffer (startSession (newInterviewGraph cfg e svc api) sid websocket) = []"
  "userTranscriptBuffer (startSession (newInterviewGraph cfg e svc api) sid websocket) = []"
  by (simp_all add: startSession_def newInterviewGraph_def socketOpened_def Let_def)

text \<open>
  Against C6 as stated: the agent asks one question, the first call records the answer
  under it and clears the agent-question buffer, and a second call without a question
  text, with that buffer still empty, is recorded under the first question again, where
  the stated order gives the placeholder.
\<close>

theorem second_answer_under_first_question:
  "aiTextBuffer afterFirstAnswer = [] \<and>
   questionText (last (analyses (state afterFirstAnswer))) = str ''Tell me about yourself.'' \<and>
   length (analyses (state afterSecondAnswer)) = 2 \<and>
   questionText (last (analyses (state afterSecondAnswer))) = str ''Tell me about yourself.'' \<and>
   stated_question noArgs (aiTextBuffer afterFirstAnswer) = str ''Interview Question'' \<and>
   questionText (last (analyses (state afterSecondAnswer))) \<noteq>
     stated_question noArgs (aiTextBuffer afterFirstAnswer)"
proof -
  let ?q = "str ''Tell me about yourself.''"
  let ?call = "\<lparr> fcName = str ''save_assessment'', fcArgs = Some noArgs, fcStamps = (0, 0) \<rparr>"
  define g1 where "g1 = onTranscript sampleSession ?q False"
  have c0: "liveClient sampleSession = (startAudioInput connectedClient)\<lparr>session := Some 1, ws := None\<rparr>"
    unfolding sampleSession_def by (rule started_session_client)
  have op0: "isSessionOpen (liveClient sampleSession)"
    by (simp add: c0 started_client_simps)
  have s0: "analyses (state sampleSession) = []" "currentQuestionIndex (state sampleSession) = 0"
    "totalQuestions (state sampleSession) = 3" "aiTextBuffer sampleSession = []"
    by (simp_all add: sampleSession_def started_session_simps started_session_buffers
        totalQs_def sampleConfig_def)
  have m1: "safeHandleMessage sampleSession (agentSays ?q) = g1"
    unfolding g1_def by (rule agent_text [OF op0]) simp
  have s1: "isSessionOpen (liveClient g1)" "analyses (state g1) = []"
    "currentQuestionIndex (state g1) = 0" "totalQuestions (state g1) = 3"
    "currentQuestionText (state g1) = ?q"
    using op0 s0 by (simp_all add: g1_def onTranscript_fields)
  have f: "afterFirstAnswer = onToolCall g1 ?call"
    unfolding afterFirstAnswer_def m1 by (rule save_message [OF s1(1)])
  note call1 = save_call [OF refl, of g1 noArgs "(0, 0)"]
  have s2: "isSessionOpen (liveClient afterFirstAnswer)" "aiTextBuffer afterFirstAnswer = []"
    "currentQuestionText (state afterFirstAnswer) = ?q"
    "length (analyses (state afterFirstAnswer)) = 1"
    using call1 s1 by (simp_all add: f save_call_texts)
  have q1: "questionText (last (analyses (state afterFirstAnswer))) = ?q"
    by (simp add: f save_call_texts handleAssessment_appends realQuestion_priority s1
        noArgs_def present_def)
  have g: "afterSecondAnswer = onToolCall afterFirstAnswer ?call"
    unfolding afterSecondAnswer_def by (rule save_message [OF s2(1)])
  have n2: "length (analyses (state afterSecondAnswer)) = 2"
    using save_call [OF refl, of afterFirstAnswer noArgs "(0, 0)"] s2 by (simp add: g)
  have q2: "questionText (last (analyses (state afterSecondAnswer))) = ?q"
    by (simp add: g save_call_texts handleAssessment_appends realQuestion_priority s2
        noArgs_def present_def)
  have st: "stated_question noArgs (aiTextBuffer afterFirstAnswer) = str ''Interview Question''"
    by (simp add: stated_question_def noArgs_def s2)
  from s2(2) q1 n2 q2 st show ?thesis by simp
qed

section \<open>Further facts about the client\<close>

text \<open>
  Only \<^verbatim>\<open>queueAudio\<close> writes the playback log and \<open>nextStartTime\<close>; a new client
  starts with both properties of the log in place.
\<close>

lemma playback_log_kept:
  "started (safeSend c d) = started c \<and> nextStartTime (safeSend c d) = nextStartTime c"
  "started (stopAudioInput c) = started c \<and> nextStartTime (stopAudioInput c) = nextStartTime c"
  "started (startAudioInput c) = started c \<and> nextStartTime (startAudioInput c) = nextStartTime c"
  "started (sourceEnded c n) = started c \<and> nextStartTime (sourceEnded c n) = nextStartTime c"
  "started (connect_resolved c sid websocket) = started c \<and>
   nextStartTime (connect_resolved c sid websocket) = nextStartTime c"
  "started (fst (disconnect_tail c)) = started c \<and>
   nextStartTime (fst (disconnect_tail c)) = nextStartTime c"
  by (simp_all add: safeSend_def stopAudioInput_def startAudioInput_def sourceEnded_def
      connect_resolved_def disconnect_tail_def stopAll_def Let_def split: option.split)

lemma playback_log_kept_by_disconnect:
  "started (fst (disconnect_start c)) = started c \<and>
   nextStartTime (fst (disconnect_start c)) = nextStartTime c"
  "started (fst (disconnect_resume (c, pc))) = started c \<and>
   nextStartTime (fst (disconnect_resume (c, pc))) = nextStartTime c"
proof -
  show "started (fst (disconnect_start c)) = started c \<and>
        nextStartTime (fst (disconnect_start c)) = nextStartTime c"
    using playback_log_kept(6) [of "(stopAudioInput c)\<lparr>isSessionOpen := False\<rparr>"]
      playback_log_kept(2) [of c]
    by (simp add: disconnect_start_def Let_def split: option.split)
  show "started (fst (disconnect_resume (c, pc))) = started c \<and>
        nextStartTime (fst (disconnect_resume (c, pc))) = nextStartTime c"
    by (cases pc) (simp_all add: playback_log_kept(6))
qed

lemma playback_log_kept_by_capture:
  "started (onaudioprocess c input now) = started c \<and>
   nextStartTime (onaudioprocess c input now) = nextStartTime c"
  by (simp add: onaudioprocess_def vadUpdate_def Let_def playback_log_kept(1) split: sum.split)

lemma playback_log_new: "gapless (started newClient) \<and> tracksEnd newClient"
  by (simp add: newClient_def tracksEnd_def)

text \<open>
  What a capture tick puts on the wire when every gate is open: the frame chosen after
  the voice-activity update, or nothing when building it threw.
\<close>

lemma capture_tick_frame:
  assumes "isSessionOpen c" "session c \<noteq> None" "ws c = Some WS_OPEN"
  shows "wire (onaudioprocess c input now) =
           wire c @ (case tickFrame (vadUpdate c input now) input of
                       Inl err \<Rightarrow> [] | Inr pcm16 \<Rightarrow> [Media pcm16])"
  using assms
  by (auto simp: onaudioprocess_def safeSend_def vadUpdate_def Let_def split: sum.split)

lemma speaking_frame:
  assumes "isSpeaking c" "audioContext c = Some a" "0 < sampleRate a"
  shows "tickFrame c input =
           Inr (map (\<lambda>i. scaleSample (readSample input \<lfloor>real i * (sampleRate a / 16000)\<rfloor>))
                  [0 ..< nat \<lfloor>real (length input) / (sampleRate a / 16000)\<rfloor>])"
  using assms by (simp add: tickFrame_def downsample_def INPUT_SAMPLE_RATE_def Let_def)

lemma silent_frame: "\<not> isSpeaking c \<Longrightarrow> tickFrame c input = Inr (replicate 320 0)"
  by (simp add: tickFrame_def)

end
